theory Spec2Isabelle
  imports Complex_Main "HOL-Library.Sublist" "HOL-Library.Char_ord" "HOL-Library.List_Lexorder"
begin

section \<open>Errors and the HTTP fetch layer\<close>

text \<open>
  Embedding of \<^verbatim>\<open>marca_harvester.py\<close>. Text is \<^typ>\<open>string\<close>; Python's
  \<^verbatim>\<open>s.startswith(p)\<close> is \<^term>\<open>prefix p s\<close> and \<^verbatim>\<open>x in s\<close> on strings is
  \<^term>\<open>sublist x s\<close>. An exception is a value of \<open>error\<close>.
\<close>

datatype error = HTTPError nat | RequestException | RuntimeError | TypeError | ValueError

record 'b response =
  status_code :: nat
  body :: 'b

text \<open>
  The network is a parameter: \<open>session t u\<close> is what \<^verbatim>\<open>SESSION.get\<close> gives for the
  \<open>t\<close>-th request of the run, sent to \<open>u\<close> (a transport failure or a response). The
  body is kept as the views the caller takes of it after parsing.
\<close>

type_synonym 'b session = "nat \<Rightarrow> string \<Rightarrow> error + 'b response"

definition http_get :: "'b session \<Rightarrow> nat \<Rightarrow> string \<Rightarrow> error + 'b response" where
  "http_get session t u =
     (case session t u of
        Inl e \<Rightarrow> Inl e
      | Inr r \<Rightarrow>
          if status_code r = 403 then Inl (HTTPError 403)
          else if 400 \<le> status_code r \<and> status_code r < 600 then Inl (HTTPError (status_code r))
          else Inr r)"

section \<open>Listing resolution\<close>

record listing_item =
  url :: string
  title :: string
  time_hint :: string
  source :: "string option"

text \<open>
  The fetched listing as the code sees it after \<^verbatim>\<open>BeautifulSoup(html, "lxml")\<close>.
  An \<^verbatim>\<open>item\<close> of an RSS feed is known by whether it has a \<^verbatim>\<open>link\<close> element and by
  its title and date texts. An Atom \<^verbatim>\<open>entry\<close> and an HTML anchor are known by the
  \<^verbatim>\<open>href\<close> attribute the code reads (\<^verbatim>\<open>""\<close> when absent) and their title and time
  texts. \<open>regex_hrefs\<close> are the matches of \<^verbatim>\<open>href="([^"]+?\.html)"\<close> in the raw text.
\<close>

record rss_item =
  item_has_link :: bool
  item_title :: string
  item_pub :: string

record feed_entry =
  link :: string
  entry_title :: string
  entry_time :: string

record listing_doc =
  is_feed :: bool
  rss_items :: "rss_item list"
  atom_entries :: "feed_entry list"
  html_candidates :: "feed_entry list"
  regex_hrefs :: "string list"

text \<open>
  \<^verbatim>\<open>urljoin\<close> is a parameter; it raises \<^verbatim>\<open>ValueError\<close> on a malformed URL, and nothing
  in \<^verbatim>\<open>parse_listing_document\<close> catches that.
\<close>

type_synonym urljoin = "string \<Rightarrow> string \<Rightarrow> error + string"

definition mk_item :: "string \<Rightarrow> string \<Rightarrow> string \<Rightarrow> listing_item" where
  "mk_item u ti th = \<lparr>url = u, title = ti, time_hint = th, source = None\<rparr>"

text \<open>
  The HTML parser of lxml takes \<^verbatim>\<open><link>\<close> for a void element: what a feed writes
  between \<^verbatim>\<open><link>\<close> and \<^verbatim>\<open></link>\<close> is not inside the element, and both
  \<^verbatim>\<open>link.text\<close> and \<^verbatim>\<open>link.get_text(strip=True)\<close> are empty.
\<close>

definition link_text :: string where
  "link_text = []"

text \<open>The loop over \<^verbatim>\<open>soup.select("item")\<close>.\<close>

fun rss_loop :: "urljoin \<Rightarrow> string \<Rightarrow> int \<Rightarrow> rss_item list \<Rightarrow> listing_item list \<Rightarrow> error + listing_item list" where
  "rss_loop uj base m [] items = Inr items"
| "rss_loop uj base m (it # rest) items =
     (let u = (if item_has_link it then link_text else []) in
      if u = [] then rss_loop uj base m rest items
      else
        case (if \<not> prefix ''http'' u then uj base u else Inr u) of
          Inl e \<Rightarrow> Inl e
        | Inr u' \<Rightarrow>
            let items' = items @ [mk_item u' (item_title it) (item_pub it)]
            in if int (length items') \<ge> m then Inr items' else rss_loop uj base m rest items')"

text \<open>The loop over \<^verbatim>\<open>soup.select("entry")\<close>.\<close>

fun atom_loop :: "urljoin \<Rightarrow> string \<Rightarrow> int \<Rightarrow> feed_entry list \<Rightarrow> listing_item list \<Rightarrow> error + listing_item list" where
  "atom_loop uj base m [] items = Inr items"
| "atom_loop uj base m (e # rest) items =
     (if link e = [] then atom_loop uj base m rest items
      else
        case (if \<not> prefix ''http'' (link e) then uj base (link e) else Inr (link e)) of
          Inl err \<Rightarrow> Inl err
        | Inr href \<Rightarrow>
            let items' = items @ [mk_item href (entry_title e) (entry_time e)]
            in if int (length items') \<ge> m then Inr items' else atom_loop uj base m rest items')"

text \<open>The loop over the anchors selected in article and heading containers.\<close>

fun html_loop :: "urljoin \<Rightarrow> string \<Rightarrow> string \<Rightarrow> int \<Rightarrow> feed_entry list \<Rightarrow> listing_item list \<Rightarrow> error + listing_item list" where
  "html_loop uj base dp m [] items = Inr items"
| "html_loop uj base dp m (a # rest) items =
     (if link a = [] then html_loop uj base dp m rest items
      else
        case uj base (link a) of
          Inl err \<Rightarrow> Inl err
        | Inr url_abs \<Rightarrow>
            if \<not> prefix dp url_abs then html_loop uj base dp m rest items
            else
              let items' = items @ [mk_item url_abs (entry_title a) (entry_time a)]
              in if int (length items') \<ge> m then Inr items' else html_loop uj base dp m rest items')"

definition excluded_segments :: "string list" where
  "excluded_segments = [''/album/'', ''/video/'', ''/fotogaleria/'']"

text \<open>
  \<^verbatim>\<open>extract_urls_regex\<close> collects into a set and returns \<^verbatim>\<open>list(urls)\<close>; the order in
  which Python iterates over a set is the parameter \<open>set_order\<close>.
\<close>

fun regex_urls :: "urljoin \<Rightarrow> string \<Rightarrow> string \<Rightarrow> string list \<Rightarrow> string set \<Rightarrow> error + string set" where
  "regex_urls uj base dp [] urls = Inr urls"
| "regex_urls uj base dp (href # rest) urls =
     (case uj base href of
        Inl err \<Rightarrow> Inl err
      | Inr u \<Rightarrow>
          if prefix dp u \<and> \<not> list_ex (\<lambda>x. sublist x u) excluded_segments
          then regex_urls uj base dp rest (insert u urls)
          else regex_urls uj base dp rest urls)"

definition extract_urls_regex ::
  "(string set \<Rightarrow> string list) \<Rightarrow> urljoin \<Rightarrow> string list \<Rightarrow> string \<Rightarrow> string \<Rightarrow> error + string list" where
  "extract_urls_regex set_order uj hrefs base dp =
     (case regex_urls uj base dp hrefs {} of
        Inl err \<Rightarrow> Inl err
      | Inr urls \<Rightarrow> Inr (set_order urls))"

fun regex_loop :: "int \<Rightarrow> string list \<Rightarrow> listing_item list \<Rightarrow> listing_item list" where
  "regex_loop m [] items = items"
| "regex_loop m (u # rest) items =
     (let items' = items @ [mk_item u [] []]
      in if int (length items') \<ge> m then items' else regex_loop m rest items')"

datatype tier = FeedTier | HtmlTier | RegexTier

text \<open>
  The three tiers of \<^verbatim>\<open>parse_listing_document\<close>, each with the test that guards it.
  Beside the items, each returns the tiers run so far.
\<close>

definition feed_tier ::
  "urljoin \<Rightarrow> string \<Rightarrow> int \<Rightarrow> listing_doc \<Rightarrow> error + listing_item list \<times> tier list" where
  "feed_tier uj base m doc =
     (if is_feed doc then
        (case rss_loop uj base m (rss_items doc) [] of
           Inl err \<Rightarrow> Inl err
         | Inr items \<Rightarrow>
             if items = [] then
               (case atom_loop uj base m (atom_entries doc) items of
                  Inl err \<Rightarrow> Inl err
                | Inr items' \<Rightarrow> Inr (items', [FeedTier]))
             else Inr (items, [FeedTier]))
      else Inr ([], []))"

definition html_tier ::
  "urljoin \<Rightarrow> string \<Rightarrow> string \<Rightarrow> int \<Rightarrow> listing_doc \<Rightarrow> listing_item list \<times> tier list \<Rightarrow>
   error + listing_item list \<times> tier list" where
  "html_tier uj base dp m doc st =
     (case st of (items, tiers) \<Rightarrow>
        if items = [] then
          (case html_loop uj base dp m (html_candidates doc) items of
             Inl err \<Rightarrow> Inl err
           | Inr items' \<Rightarrow> Inr (items', tiers @ [HtmlTier]))
        else Inr (items, tiers))"

definition regex_tier ::
  "(string set \<Rightarrow> string list) \<Rightarrow> urljoin \<Rightarrow> string \<Rightarrow> string \<Rightarrow> int \<Rightarrow> listing_doc \<Rightarrow>
   listing_item list \<times> tier list \<Rightarrow> error + listing_item list \<times> tier list" where
  "regex_tier set_order uj base dp m doc st =
     (case st of (items, tiers) \<Rightarrow>
        if length items < 5 then
          (case extract_urls_regex set_order uj (regex_hrefs doc) base dp of
             Inl err \<Rightarrow> Inl err
           | Inr us \<Rightarrow> Inr (regex_loop m us items, tiers @ [RegexTier]))
        else Inr (items, tiers))"

definition resolve_tiers ::
  "(string set \<Rightarrow> string list) \<Rightarrow> urljoin \<Rightarrow> string \<Rightarrow> string \<Rightarrow> int \<Rightarrow> listing_doc \<Rightarrow>
   error + listing_item list \<times> tier list" where
  "resolve_tiers set_order uj base dp m doc =
     (case feed_tier uj base m doc of
        Inl err \<Rightarrow> Inl err
      | Inr st1 \<Rightarrow>
          (case html_tier uj base dp m doc st1 of
             Inl err \<Rightarrow> Inl err
           | Inr st2 \<Rightarrow> regex_tier set_order uj base dp m doc st2))"

text \<open>The closing \<^verbatim>\<open># dedup\<close> loop: \<open>seen\<close> and \<open>out\<close> are its two variables.\<close>

fun dedup_loop :: "int \<Rightarrow> listing_item list \<Rightarrow> string set \<Rightarrow> listing_item list \<Rightarrow> listing_item list" where
  "dedup_loop m [] seen out = out"
| "dedup_loop m (it # rest) seen out =
     (if url it \<in> seen then dedup_loop m rest seen out
      else
        let seen' = insert (url it) seen; out' = out @ [it]
        in if int (length out') \<ge> m then out' else dedup_loop m rest seen' out')"

definition parse_listing_document ::
  "listing_doc session \<Rightarrow> nat \<Rightarrow> (string set \<Rightarrow> string list) \<Rightarrow> urljoin \<Rightarrow>
   string \<Rightarrow> string \<Rightarrow> int \<Rightarrow> error + listing_item list" where
  "parse_listing_document session t set_order uj u dp m =
     (case http_get session t u of
        Inl (HTTPError c) \<Rightarrow> if c = 403 then Inr [] else Inl (HTTPError c)
      | Inl e \<Rightarrow> Inl e
      | Inr res \<Rightarrow>
          (case resolve_tiers set_order uj u dp m (body res) of
             Inl err \<Rightarrow> Inl err
           | Inr (items, tiers) \<Rightarrow> Inr (dedup_loop m items {} [])))"

record source_config =
  name :: string
  listing :: string
  homepage :: string
  domain_prefix :: string
  max_to_fetch :: int

definition tag_source :: "string \<Rightarrow> listing_item list \<Rightarrow> listing_item list" where
  "tag_source n items = map (\<lambda>it. it\<lparr>source := Some n\<rparr>) items"

text \<open>
  The loop over \<^verbatim>\<open>SOURCES\<close> in \<^verbatim>\<open>parse_all_listings\<close>. Any exception of a source
  leaves it with no items; the homepage is tried when the listing gave none.
  \<open>t\<close> counts the requests sent so far.
\<close>

fun sources_loop ::
  "listing_doc session \<Rightarrow> (string set \<Rightarrow> string list) \<Rightarrow> urljoin \<Rightarrow> nat \<Rightarrow>
   source_config list \<Rightarrow> listing_item list \<Rightarrow> listing_item list" where
  "sources_loop session so uj t [] all_items = all_items"
| "sources_loop session so uj t (src # rest) all_items =
     (case parse_listing_document session t so uj (listing src) (domain_prefix src) (max_to_fetch src) of
        Inl e \<Rightarrow> sources_loop session so uj (Suc t) rest all_items
      | Inr items \<Rightarrow>
          if length items = 0 \<and> homepage src \<noteq> listing src then
            (case parse_listing_document session (Suc t) so uj (homepage src) (domain_prefix src) (max_to_fetch src) of
               Inl e \<Rightarrow> sources_loop session so uj (Suc (Suc t)) rest all_items
             | Inr items' \<Rightarrow>
                 sources_loop session so uj (Suc (Suc t)) rest (all_items @ tag_source (name src) items'))
          else sources_loop session so uj (Suc t) rest (all_items @ tag_source (name src) items))"

fun global_dedup :: "listing_item list \<Rightarrow> string set \<Rightarrow> listing_item list \<Rightarrow> listing_item list" where
  "global_dedup [] dedup out = out"
| "global_dedup (it # rest) dedup out =
     (if url it \<in> dedup then global_dedup rest dedup out
      else global_dedup rest (insert (url it) dedup) (out @ [it]))"

definition parse_all_listings ::
  "listing_doc session \<Rightarrow> (string set \<Rightarrow> string list) \<Rightarrow> urljoin \<Rightarrow> source_config list \<Rightarrow> listing_item list" where
  "parse_all_listings session so uj SOURCES = global_dedup (sources_loop session so uj 0 SOURCES []) {} []"

section \<open>String helpers\<close>

text \<open>
  \<^verbatim>\<open>str.replace(old, new)\<close>: a scan from the left that replaces each occurrence found
  and resumes after it; with an empty \<open>old\<close>, \<open>new\<close> goes before every character and
  at the end.
\<close>

function py_replace :: "string \<Rightarrow> string \<Rightarrow> string \<Rightarrow> string" where
  "py_replace old new [] = (if old = [] then new else [])"
| "py_replace old new (c # cs) =
     (if old = [] then new @ c # py_replace old new cs
      else if prefix old (c # cs) then new @ py_replace old new (drop (length old) (c # cs))
      else c # py_replace old new cs)"
  by pat_completeness auto
termination
  by (relation "measure (\<lambda>(old, new, s). length s)") auto

text \<open>\<^verbatim>\<open>str.strip()\<close> on the ASCII white space: tab to carriage return, FS to US, space.\<close>

definition is_space :: "char \<Rightarrow> bool" where
  "is_space c = (let n = (of_char c :: nat) in (9 \<le> n \<and> n \<le> 13) \<or> (28 \<le> n \<and> n \<le> 32))"

definition py_strip :: "string \<Rightarrow> string" where
  "py_strip s = rev (dropWhile is_space (rev (dropWhile is_space s)))"

fun join :: "string \<Rightarrow> string list \<Rightarrow> string" where
  "join sep [] = []"
| "join sep [x] = x"
| "join sep (x # y # ys) = x @ sep @ join sep (y # ys)"

text \<open>\<^verbatim>\<open>str.split(sep)\<close> for a one-character separator.\<close>

fun split_on :: "char \<Rightarrow> string \<Rightarrow> string list" where
  "split_on sep [] = [[]]"
| "split_on sep (c # cs) =
     (if c = sep then [] # split_on sep cs
      else (case split_on sep cs of [] \<Rightarrow> [[c]] | w # ws \<Rightarrow> (c # w) # ws))"

section \<open>Dates of the regulatory table\<close>

text \<open>
  \<^verbatim>\<open>datetime.strptime(date_raw, "%d/%m/%Y").date().isoformat()\<close>. The directive
  \<^verbatim>\<open>%d\<close> reads \<^verbatim>\<open>3[0-1]|[1-2]\d|0[1-9]|[1-9]| [1-9]\<close>, \<^verbatim>\<open>%m\<close> reads
  \<^verbatim>\<open>1[0-2]|0[1-9]|[1-9]\<close>, \<^verbatim>\<open>%Y\<close> reads four digits, the whole text must be
  consumed and the date must exist in the calendar (years from 1). Digits are the ASCII
  ones. \<open>None\<close> is \<^verbatim>\<open>ValueError\<close>.
\<close>

definition digit_val :: "char \<Rightarrow> nat option" where
  "digit_val c = (let n = (of_char c :: nat) in if 48 \<le> n \<and> n \<le> 57 then Some (n - 48) else None)"

fun parse_day :: "string \<Rightarrow> nat option" where
  "parse_day [a] = (case digit_val a of Some x \<Rightarrow> if 1 \<le> x then Some x else None | None \<Rightarrow> None)"
| "parse_day [a, b] =
     (case digit_val b of
        None \<Rightarrow> None
      | Some y \<Rightarrow>
          if a = CHR ''3'' \<and> y \<le> 1 then Some (30 + y)
          else if a = CHR ''1'' \<or> a = CHR ''2'' then Some (10 * (of_char a - 48) + y)
          else if (a = CHR ''0'' \<or> a = CHR '' '') \<and> 1 \<le> y then Some y
          else None)"
| "parse_day _ = None"

fun parse_month :: "string \<Rightarrow> nat option" where
  "parse_month [a] = (case digit_val a of Some x \<Rightarrow> if 1 \<le> x then Some x else None | None \<Rightarrow> None)"
| "parse_month [a, b] =
     (case digit_val b of
        None \<Rightarrow> None
      | Some y \<Rightarrow>
          if a = CHR ''1'' \<and> y \<le> 2 then Some (10 + y)
          else if a = CHR ''0'' \<and> 1 \<le> y then Some y
          else None)"
| "parse_month _ = None"

fun parse_year :: "string \<Rightarrow> nat option" where
  "parse_year [a, b, c, d] =
     (case (digit_val a, digit_val b, digit_val c, digit_val d) of
        (Some w, Some x, Some y, Some z) \<Rightarrow> Some (1000 * w + 100 * x + 10 * y + z)
      | _ \<Rightarrow> None)"
| "parse_year _ = None"

definition is_leap :: "nat \<Rightarrow> bool" where
  "is_leap y = (y mod 4 = 0 \<and> (y mod 100 \<noteq> 0 \<or> y mod 400 = 0))"

definition days_in_month :: "nat \<Rightarrow> nat \<Rightarrow> nat" where
  "days_in_month y m =
     (if m = 2 then (if is_leap y then 29 else 28)
      else if m = 4 \<or> m = 6 \<or> m = 9 \<or> m = 11 then 30 else 31)"

definition strptime_dmy :: "string \<Rightarrow> (nat \<times> nat \<times> nat) option" where
  "strptime_dmy s =
     (case split_on CHR ''/'' s of
        [ds, ms, ys] \<Rightarrow>
          (case (parse_day ds, parse_month ms, parse_year ys) of
             (Some d, Some m, Some y) \<Rightarrow>
               if 1 \<le> y \<and> d \<le> days_in_month y m then Some (y, m, d) else None
           | _ \<Rightarrow> None)
      | _ \<Rightarrow> None)"

definition digit_char :: "nat \<Rightarrow> char" where
  "digit_char n = ''0123456789'' ! (n mod 10)"

definition isoformat_date :: "nat \<times> nat \<times> nat \<Rightarrow> string" where
  "isoformat_date ymd =
     (case ymd of (y, m, d) \<Rightarrow>
        [digit_char (y div 1000), digit_char (y div 100), digit_char (y div 10), digit_char y]
        @ ''-'' @ [digit_char (m div 10), digit_char m]
        @ ''-'' @ [digit_char (d div 10), digit_char d])"

section \<open>The regulatory scraper\<close>

record 'f short_position_row =
  holder :: string
  net_short_pct :: 'f
  date :: string

record 'f issuer_block =
  nif :: string
  issuer :: string
  block_url :: string
  rows :: "'f short_position_row list"

text \<open>
  A table of the fetched page: its flattened text and, for each \<^verbatim>\<open>tr\<close>, the texts of
  its \<^verbatim>\<open>td\<close> cells. \<open>headings\<close> are the texts of \<^verbatim>\<open>soup.select("h1, h2, strong")\<close>.
\<close>

record cnmv_table =
  table_text :: string
  table_rows :: "string list list"

record cnmv_page =
  tables :: "cnmv_table list"
  headings :: "string list"

datatype log_entry = LogFetchError string error | LogNoTable string

definition CNMV_BASE_URL :: string where
  "CNMV_BASE_URL = ''https://www.cnmv.es/Portal/Consultas/ee/posicionescortas''"

definition cnmv_url :: "string \<Rightarrow> string \<Rightarrow> string option \<Rightarrow> string" where
  "cnmv_url CNMV_LANG n lang =
     (let l = (case lang of None \<Rightarrow> CNMV_LANG | Some s \<Rightarrow> if s = [] then CNMV_LANG else s)
      in CNMV_BASE_URL @ ''?nif='' @ n @ (if l \<noteq> [] then ''&lang='' @ l else []))"

definition is_positions_table :: "cnmv_table \<Rightarrow> bool" where
  "is_positions_table t =
     (sublist ''Outstanding net short positions'' (table_text t) \<or>
      sublist ''Notificaciones vivas iguales o superiores al 0,5%'' (table_text t))"

fun find_table :: "cnmv_table list \<Rightarrow> cnmv_table option" where
  "find_table [] = None"
| "find_table (t # ts) = (if is_positions_table t then Some t else find_table ts)"

fun find_issuer :: "(string \<Rightarrow> string) \<Rightarrow> string list \<Rightarrow> string" where
  "find_issuer lower [] = []"
| "find_issuer lower (text # rest) =
     (if text = [] then find_issuer lower rest
      else
        let low = lower text in
        if sublist ''posiciones cortas'' low \<or> sublist ''short positions'' low
        then find_issuer lower rest
        else text)"

text \<open>
  The loop over the rows. \<open>pyfloat\<close> is Python's \<^verbatim>\<open>float\<close> on a string, \<open>None\<close> for
  \<^verbatim>\<open>ValueError\<close>.
\<close>

fun rows_loop ::
  "(string \<Rightarrow> 'f option) \<Rightarrow> string list list \<Rightarrow> 'f short_position_row list \<Rightarrow> 'f short_position_row list" where
  "rows_loop pyfloat [] rs = rs"
| "rows_loop pyfloat (tds # trs) rs =
     (if length tds < 3 then rows_loop pyfloat trs rs
      else
        let pct_raw = tds ! 1; date_raw = tds ! 2;
            pct_str = py_replace '','' ''.'' pct_raw
        in case pyfloat pct_str of
             None \<Rightarrow> rows_loop pyfloat trs rs
           | Some pct \<Rightarrow>
               let date_iso = (case strptime_dmy date_raw of
                                 Some dt \<Rightarrow> isoformat_date dt
                               | None \<Rightarrow> date_raw)
               in rows_loop pyfloat trs
                    (rs @ [\<lparr>holder = tds ! 0, net_short_pct = pct, date = date_iso\<rparr>]))"

definition get_cnmv_short_positions ::
  "cnmv_page session \<Rightarrow> nat \<Rightarrow> string \<Rightarrow> (string \<Rightarrow> string) \<Rightarrow> (string \<Rightarrow> 'f option) \<Rightarrow>
   string \<Rightarrow> string option \<Rightarrow> error + (log_entry list \<times> 'f issuer_block option)" where
  "get_cnmv_short_positions session t CNMV_LANG lower pyfloat n lang =
     (let u = cnmv_url CNMV_LANG n lang in
      case http_get session t u of
        Inl e \<Rightarrow> Inr ([LogFetchError u e], None)
      | Inr res \<Rightarrow>
          (case find_table (tables (body res)) of
             None \<Rightarrow> Inr ([LogNoTable n], Some \<lparr>nif = n, issuer = [], block_url = u, rows = []\<rparr>)
           | Some table \<Rightarrow>
               Inr ([], Some \<lparr>nif = n, issuer = find_issuer lower (headings (body res)), block_url = u,
                              rows = rows_loop pyfloat (drop 1 (table_rows table)) []\<rparr>)))"

section \<open>The issuer markup and the composed report\<close>

text \<open>
  \<^verbatim>\<open>build_html_cnmv\<close>. Text outside ASCII is in UTF-8; \<open>fmt3f\<close> is the format
  \<^verbatim>\<open>:.3f\<close> of a float.
\<close>

definition newline :: string where
  "newline = [CHR 0x0A]"

definition block_parts :: "('f \<Rightarrow> string) \<Rightarrow> 'f issuer_block \<Rightarrow> string list" where
  \<open>block_parts fmt3f b =
     (let iss = py_strip (issuer b);
          ttl = (if iss \<noteq> [] then iss @ '' ('' @ nif b @ '')'' else nif b);
          hd_parts =
            [''<h3 style="margin:16px 0 4px 0;">'' @ ttl @ ''</h3>'',
             ''<div style="font-size:12px;color:#666;margin-bottom:4px;">'' @
             ''Fuente: <a href="'' @ block_url b @ ''">'' @ block_url b @ ''</a></div>'']
      in if rows b = [] then
           hd_parts @ [''<p style="font-size:13px;color:#666;">Sin posiciones vivas publicadas.</p>'']
         else
           hd_parts @
           [''<table style="border-collapse:collapse;font-size:13px;margin-bottom:12px;">'' @
            ''<thead><tr>'' @
            ''<th style="border-bottom:1px solid #ccc;padding:4px 8px;text-align:left;">Titular</th>'' @
            ''<th style="border-bottom:1px solid #ccc;padding:4px 8px;text-align:right;">% capital</th>'' @
            ''<th style="border-bottom:1px solid #ccc;padding:4px 8px;text-align:left;">Fecha posici'' @
            [CHR 0xC3, CHR 0xB3] @ ''n</th>'' @
            ''</tr></thead><tbody>''] @
           map (\<lambda>r. ''<tr>'' @
                     ''<td style="padding:4px 8px;">'' @ holder r @ ''</td>'' @
                     ''<td style="padding:4px 8px;text-align:right;">'' @ fmt3f (net_short_pct r) @ ''</td>'' @
                     ''<td style="padding:4px 8px;">'' @ date r @ ''</td>'' @
                     ''</tr>'') (rows b) @
           [''</tbody></table>''])\<close>

definition build_html_cnmv :: "('f \<Rightarrow> string) \<Rightarrow> 'f issuer_block list \<Rightarrow> string" where
  \<open>build_html_cnmv fmt3f blocks =
     (if blocks = [] then []
      else join newline
             ([''<hr style="margin:32px 0;">'',
               ''<h2 style="margin-bottom:8px;">Posiciones cortas CNMV ('' @
               [CHR 0xE2, CHR 0x89, CHR 0xA5] @ '' 0,5%)</h2>''] @
              concat (map (block_parts fmt3f) blocks)))\<close>

text \<open>
  The loop of \<^verbatim>\<open>main\<close> over \<^verbatim>\<open>CNMV_NIFS\<close>: an empty identifier is skipped, a
  scraper that raises or returns nothing adds no block.
\<close>

fun cnmv_loop ::
  "cnmv_page session \<Rightarrow> string \<Rightarrow> (string \<Rightarrow> string) \<Rightarrow> (string \<Rightarrow> 'f option) \<Rightarrow>
   nat \<Rightarrow> string list \<Rightarrow> 'f issuer_block list \<Rightarrow> 'f issuer_block list" where
  "cnmv_loop session CNMV_LANG lower pyfloat t [] cnmv_blocks = cnmv_blocks"
| "cnmv_loop session CNMV_LANG lower pyfloat t (n # rest) cnmv_blocks =
     (if n = [] then cnmv_loop session CNMV_LANG lower pyfloat t rest cnmv_blocks
      else
        case get_cnmv_short_positions session t CNMV_LANG lower pyfloat (py_strip n) None of
          Inl e \<Rightarrow> cnmv_loop session CNMV_LANG lower pyfloat (Suc t) rest cnmv_blocks
        | Inr (logs, None) \<Rightarrow> cnmv_loop session CNMV_LANG lower pyfloat (Suc t) rest cnmv_blocks
        | Inr (logs, Some block) \<Rightarrow>
            cnmv_loop session CNMV_LANG lower pyfloat (Suc t) rest (cnmv_blocks @ [block]))"

definition MARKER :: string where
  "MARKER = ''</body></html>''"

text \<open>The last step of \<^verbatim>\<open>main\<close> before sending: news artifact and issuer markup.\<close>

definition compose_html :: "string \<Rightarrow> string \<Rightarrow> string" where
  "compose_html html_news cnmv_html =
     (if cnmv_html \<noteq> [] \<and> sublist MARKER html_news
      then py_replace MARKER (cnmv_html @ newline @ MARKER) html_news
      else html_news @ cnmv_html)"

definition final_html ::
  "cnmv_page session \<Rightarrow> string \<Rightarrow> (string \<Rightarrow> string) \<Rightarrow> (string \<Rightarrow> 'f option) \<Rightarrow> ('f \<Rightarrow> string) \<Rightarrow>
   nat \<Rightarrow> string list \<Rightarrow> string \<Rightarrow> string" where
  "final_html session CNMV_LANG lower pyfloat fmt3f t CNMV_NIFS html_news =
     compose_html html_news
       (build_html_cnmv fmt3f (cnmv_loop session CNMV_LANG lower pyfloat t CNMV_NIFS []))"

section \<open>Recency\<close>

text \<open>
  \<^verbatim>\<open>is_recent\<close>. Instants are seconds since the epoch, \<open>now\<close> is the clock read by the
  call, \<open>instant_of tzname s\<close> is \<^verbatim>\<open>dateparser.parse(s).astimezone(target)\<close> with
  \<open>None\<close> for an exception. \<open>cfg_hours\<close> is \<^verbatim>\<open>CFG.get("hours_recent", 24)\<close>, \<open>None\<close>
  when it is not a number (the comparison then raises, which gives \<^verbatim>\<open>False\<close>).
\<close>

definition effective_hours :: "rat option \<Rightarrow> rat option \<Rightarrow> rat option" where
  "effective_hours cfg_hours hours =
     (case hours of None \<Rightarrow> cfg_hours | Some h \<Rightarrow> if h = 0 then cfg_hours else Some h)"

definition is_recent ::
  "rat option \<Rightarrow> (string \<Rightarrow> string \<Rightarrow> rat option) \<Rightarrow> rat \<Rightarrow> string option \<Rightarrow> string \<Rightarrow> rat option \<Rightarrow> bool" where
  "is_recent cfg_hours instant_of now dt_iso tzname hours =
     (let hours' = effective_hours cfg_hours hours in
      case dt_iso of
        None \<Rightarrow> False
      | Some s \<Rightarrow>
          if s = [] then False
          else (case instant_of tzname s of
                  None \<Rightarrow> False
                | Some dt \<Rightarrow>
                    (case hours' of
                       None \<Rightarrow> False
                     | Some h \<Rightarrow> now - dt \<le> h * 3600)))"

section \<open>Keywords and the adaptive prefilter\<close>

text \<open>
  \<^verbatim>\<open>norm\<close>: \<open>nfkd\<close> is \<^verbatim>\<open>unicodedata.normalize('NFKD', s)\<close>, \<open>strip_combining\<close>
  removes the combining characters, \<open>lower\<close> is \<^verbatim>\<open>str.lower\<close>.
\<close>

definition norm :: "(string \<Rightarrow> string) \<Rightarrow> (string \<Rightarrow> string) \<Rightarrow> (string \<Rightarrow> string) \<Rightarrow> string \<Rightarrow> string" where
  "norm nfkd strip_combining lower s = (if s = [] then [] else lower (strip_combining (nfkd s)))"

datatype keyword_arg = KwNone | KwOne string | KwMany "string option list"

definition make_kw_list :: "(string \<Rightarrow> string) \<Rightarrow> keyword_arg \<Rightarrow> string list option" where
  "make_kw_list nrm keyword =
     (case keyword of
        KwNone \<Rightarrow> None
      | KwOne k \<Rightarrow> if k = [] then None else Some [nrm k]
      | KwMany ks \<Rightarrow>
          if ks = [] then None
          else Some (concat (map (\<lambda>k. case k of None \<Rightarrow> [] | Some x \<Rightarrow> if x = [] then [] else [nrm x]) ks)))"

definition kw_active :: "string list option \<Rightarrow> bool" where
  "kw_active kw_list = (case kw_list of None \<Rightarrow> False | Some ks \<Rightarrow> ks \<noteq> [])"

definition matches_listing :: "(string \<Rightarrow> string) \<Rightarrow> string list \<Rightarrow> listing_item \<Rightarrow> bool" where
  "matches_listing nrm ks it = list_ex (\<lambda>k. sublist k (nrm (title it)) \<or> sublist k (nrm (url it))) ks"

definition THRESH_ABS :: nat where
  "THRESH_ABS = 50"

text \<open>
  \<^verbatim>\<open>THRESH_REL = 0.2\<close> and \<^verbatim>\<open>int(before * THRESH_REL)\<close>, in exact arithmetic.
  \<open>DOUBLE_THRESH_REL\<close> is the value of the double that \<^verbatim>\<open>0.2\<close> denotes; it exceeds 0.2
  by 1/(5 * 2^54), which does not change the truncated product for any listing that fits in
  memory (shown below for fewer than 2^54 items).
\<close>

definition THRESH_REL :: rat where
  "THRESH_REL = 2 / 10"

definition DOUBLE_THRESH_REL :: rat where
  "DOUBLE_THRESH_REL = 3602879701896397 / 18014398509481984"

definition use_prefilter :: "nat \<Rightarrow> nat \<Rightarrow> bool" where
  "use_prefilter n_pre before = (n_pre \<ge> max THRESH_ABS (nat \<lfloor>of_nat before * THRESH_REL\<rfloor>))"

definition prefilter_stage :: "(string \<Rightarrow> string) \<Rightarrow> string list option \<Rightarrow> listing_item list \<Rightarrow> listing_item list" where
  "prefilter_stage nrm kw_list items =
     (case kw_list of
        None \<Rightarrow> items
      | Some ks \<Rightarrow>
          if ks = [] then items
          else
            let before = length items;
                pre = filter (matches_listing nrm ks) items
            in if use_prefilter (length pre) before then pre else items)"

section \<open>Article extraction\<close>

text \<open>
  Values of the embedded JSON-LD block, with Python's truthiness, \<^verbatim>\<open>dict.get\<close> (absent
  gives \<^verbatim>\<open>None\<close>) and \<^verbatim>\<open>a or b\<close>.
\<close>

datatype json = JNull | JBool bool | JNum rat | JStr string | JList "json list" | JObj "(string \<times> json) list"

fun truthy :: "json \<Rightarrow> bool" where
  "truthy JNull = False"
| "truthy (JBool b) = b"
| "truthy (JNum n) = (n \<noteq> 0)"
| "truthy (JStr s) = (s \<noteq> [])"
| "truthy (JList xs) = (xs \<noteq> [])"
| "truthy (JObj kvs) = (kvs \<noteq> [])"

definition dict_get :: "(string \<times> json) list \<Rightarrow> string \<Rightarrow> json" where
  "dict_get d k = (case map_of d k of None \<Rightarrow> JNull | Some v \<Rightarrow> v)"

definition py_or :: "json \<Rightarrow> json \<Rightarrow> json" where
  "py_or a b = (if truthy a then a else b)"

fun pick_name :: "json \<Rightarrow> json" where
  "pick_name (JObj d) = py_or (dict_get d ''name'') (py_or (dict_get d ''@id'') (JStr []))"
| "pick_name (JStr s) = JStr s"
| "pick_name _ = JStr []"

text \<open>\<^verbatim>\<open>", ".join(names)\<close> raises \<^verbatim>\<open>TypeError\<close> on an element that is not a string.\<close>

fun str_items :: "json list \<Rightarrow> error + string list" where
  "str_items [] = Inr []"
| "str_items (JStr s # rest) = (case str_items rest of Inl e \<Rightarrow> Inl e | Inr ss \<Rightarrow> Inr (s # ss))"
| "str_items (_ # rest) = Inl TypeError"

definition structured_author :: "json \<Rightarrow> error + json" where
  "structured_author auth =
     (case auth of
        JList xs \<Rightarrow>
          (case str_items (filter truthy (map pick_name xs)) of
             Inl e \<Rightarrow> Inl e
           | Inr names \<Rightarrow> Inr (JStr (join '', '' names)))
      | _ \<Rightarrow> Inr (pick_name auth))"

text \<open>
  The parsed page: its elements in document order (name, attributes, stripped text), and
  the results of the CSS selections and of the full-text extractor that the code uses.
\<close>

record html_tag =
  tag_name :: string
  attrs :: "(string \<times> string) list"
  tag_text :: string

record article_page =
  jsonld :: "(string \<times> json) list option"
  tags :: "html_tag list"
  byline :: "string option"
  h1 :: "string option"
  main_text :: "string option"

definition soup_find :: "html_tag list \<Rightarrow> string \<times> (string \<times> string) list \<Rightarrow> html_tag option" where
  "soup_find tgs sel =
     List.find (\<lambda>tg. tag_name tg = fst sel \<and> list_all (\<lambda>kv. map_of (attrs tg) (fst kv) = Some (snd kv)) (snd sel)) tgs"

definition author_selectors :: "(string \<times> (string \<times> string) list) list" where
  "author_selectors =
     [(''meta'', [(''name'', ''author'')]),
      (''meta'', [(''property'', ''article:author'')]),
      (''meta'', [(''name'', ''byl'')]),
      (''meta'', [(''name'', ''dc.creator'')]),
      (''meta'', [(''name'', ''parsely-author'')])]"

fun author_meta_loop :: "html_tag list \<Rightarrow> (string \<times> (string \<times> string) list) list \<Rightarrow> string" where
  "author_meta_loop tgs [] = []"
| "author_meta_loop tgs (sel # rest) =
     (case soup_find tgs sel of
        None \<Rightarrow> author_meta_loop tgs rest
      | Some tg \<Rightarrow>
          (case map_of (attrs tg) ''content'' of
             None \<Rightarrow> author_meta_loop tgs rest
           | Some c \<Rightarrow> if c = [] then author_meta_loop tgs rest else py_strip c))"

definition html_author :: "article_page \<Rightarrow> string" where
  "html_author page =
     (let a = author_meta_loop (tags page) author_selectors
      in if a = [] then (case byline page of None \<Rightarrow> [] | Some b \<Rightarrow> b) else a)"

text \<open>
  \<^verbatim>\<open>normalize_datetime\<close>: \<open>dateparse tzname s\<close> is the body of its \<^verbatim>\<open>try\<close>, \<open>None\<close> when
  it raises or parses nothing. A value that is not a string makes the parser raise.
\<close>

definition normalize_datetime :: "(string \<Rightarrow> string \<Rightarrow> 'i option) \<Rightarrow> json \<Rightarrow> string \<Rightarrow> 'i option" where
  "normalize_datetime dateparse dt_str tzname =
     (if \<not> truthy dt_str then None
      else (case dt_str of JStr s \<Rightarrow> dateparse tzname s | _ \<Rightarrow> None))"

definition meta_selectors :: "(string \<times> (string \<times> string) list) list" where
  "meta_selectors =
     [(''meta'', [(''property'', ''article:published_time'')]),
      (''meta'', [(''name'', ''date'')]),
      (''meta'', [(''itemprop'', ''datePublished'')]),
      (''meta'', [(''name'', ''pubdate'')]),
      (''meta'', [(''property'', ''og:updated_time'')]),
      (''time'', [])]"

definition attr_or_empty :: "html_tag \<Rightarrow> string \<Rightarrow> string" where
  "attr_or_empty tg k = (case map_of (attrs tg) k of None \<Rightarrow> [] | Some v \<Rightarrow> v)"

fun published_loop ::
  "(string \<Rightarrow> string \<Rightarrow> 'i option) \<Rightarrow> string \<Rightarrow> html_tag list \<Rightarrow> (string \<times> (string \<times> string) list) list \<Rightarrow> 'i option" where
  "published_loop dateparse tzname tgs [] = None"
| "published_loop dateparse tzname tgs (sel # rest) =
     (case soup_find tgs sel of
        None \<Rightarrow> published_loop dateparse tzname tgs rest
      | Some tg \<Rightarrow>
          let c = (if attr_or_empty tg ''content'' \<noteq> [] then attr_or_empty tg ''content''
                   else if attr_or_empty tg ''datetime'' \<noteq> [] then attr_or_empty tg ''datetime''
                   else tag_text tg)
          in (case normalize_datetime dateparse (JStr c) tzname of
                Some dt \<Rightarrow> Some dt
              | None \<Rightarrow> published_loop dateparse tzname tgs rest))"

definition extract_published_from_html ::
  "(string \<Rightarrow> string \<Rightarrow> 'i option) \<Rightarrow> html_tag list \<Rightarrow> string \<Rightarrow> 'i option" where
  "extract_published_from_html dateparse tgs tzname = published_loop dateparse tzname tgs meta_selectors"

record article =
  art_url :: string
  art_title :: json
  author :: json
  published :: "string option"
  content :: json
  art_source :: "string option"

definition extract_article ::
  "article_page session \<Rightarrow> nat \<Rightarrow> (string \<Rightarrow> string \<Rightarrow> 'i option) \<Rightarrow> ('i \<Rightarrow> string) \<Rightarrow>
   string \<Rightarrow> string \<Rightarrow> error + article" where
  "extract_article session t dateparse isoformat u tzname =
     (case http_get session t u of
        Inl (HTTPError c) \<Rightarrow> if c = 403 then Inl RuntimeError else Inl (HTTPError c)
      | Inl e \<Rightarrow> Inl e
      | Inr res \<Rightarrow>
          let page = body res;
              meta = (case jsonld page of None \<Rightarrow> [] | Some d \<Rightarrow> d);
              published0 = normalize_datetime dateparse
                             (py_or (dict_get meta ''datePublished'') (dict_get meta ''dateModified'')) tzname;
              headline0 = dict_get meta ''headline'';
              article_body0 = dict_get meta ''articleBody''
          in (case structured_author (dict_get meta ''author'') of
               Inl e \<Rightarrow> Inl e
             | Inr author0 \<Rightarrow>
                 let author1 = (if \<not> truthy author0 then JStr (html_author page) else author0);
                     article_body = (if \<not> truthy article_body0
                                     then JStr (py_strip (case main_text page of None \<Rightarrow> [] | Some x \<Rightarrow> x))
                                     else article_body0);
                     headline = (if \<not> truthy headline0
                                 then JStr (case h1 page of None \<Rightarrow> [] | Some x \<Rightarrow> x)
                                 else headline0);
                     published1 = (case published0 of
                                     None \<Rightarrow> extract_published_from_html dateparse (tags page) tzname
                                   | Some p \<Rightarrow> Some p)
                 in Inr \<lparr>art_url = u,
                         art_title = py_or headline (JStr []),
                         author = py_or author1 (JStr []),
                         published = map_option isoformat published1,
                         content = py_or article_body (JStr []),
                         art_source = None\<rparr>))"

section \<open>The extraction loop of main\<close>

datatype event = SkippedSeen string | Attempted string

record loop_state =
  st_seen :: "string set"
  st_collected :: "article list"
  st_events :: "event list"

definition load_state :: "string set" where
  "load_state = {}"

text \<open>
  The keyword test on the extracted article; adding a value that is not a string to a
  string raises \<^verbatim>\<open>TypeError\<close>, outside the \<^verbatim>\<open>try\<close> of the loop.
\<close>

definition keyword_check :: "(string \<Rightarrow> string) \<Rightarrow> string list option \<Rightarrow> article \<Rightarrow> error + bool" where
  "keyword_check nrm kw_list art =
     (if kw_active kw_list then
        (case (py_or (art_title art) (JStr []), py_or (content art) (JStr [])) of
           (JStr a, JStr b) \<Rightarrow>
             Inr (list_ex (\<lambda>k. sublist k (nrm (a @ '' '' @ b))) (case kw_list of None \<Rightarrow> [] | Some ks \<Rightarrow> ks))
         | _ \<Rightarrow> Inl TypeError)
      else Inr True)"

text \<open>\<^verbatim>\<open>art.get('title','')[:80]\<close> in the closing log line needs a string or a list.\<close>

fun sliceable :: "json \<Rightarrow> bool" where
  "sliceable (JStr s) = True"
| "sliceable (JList xs) = True"
| "sliceable _ = False"

text \<open>
  The loop over the listing. \<open>extract t u\<close> is \<^verbatim>\<open>extract_article(url, tzname)\<close> as the
  \<open>t\<close>-th request, \<open>recent t p\<close> is \<^verbatim>\<open>is_recent(p, tzname)\<close> at that moment. The state
  records, beside \<open>seen\<close> and \<open>collected\<close>, what happened to each URL; an exception that
  leaves the loop is returned with the state reached.
\<close>

fun main_loop ::
  "(nat \<Rightarrow> string \<Rightarrow> error + article) \<Rightarrow> (nat \<Rightarrow> string option \<Rightarrow> bool) \<Rightarrow> (string \<Rightarrow> string) \<Rightarrow>
   string list option \<Rightarrow> nat \<Rightarrow> listing_item list \<Rightarrow> loop_state \<Rightarrow> loop_state \<times> error option" where
  "main_loop extract recent nrm kw_list t [] st = (st, None)"
| "main_loop extract recent nrm kw_list t (item # rest) st =
     (let u = url item in
      if \<not> kw_active kw_list \<and> u \<in> st_seen st
      then main_loop extract recent nrm kw_list t rest (st\<lparr>st_events := st_events st @ [SkippedSeen u]\<rparr>)
      else
        let st1 = st\<lparr>st_events := st_events st @ [Attempted u]\<rparr> in
        case extract t u of
          Inl e \<Rightarrow> main_loop extract recent nrm kw_list (Suc t) rest st1
        | Inr art \<Rightarrow>
            (case keyword_check nrm kw_list art of
               Inl e \<Rightarrow> (st1, Some e)
             | Inr ok \<Rightarrow>
                 if \<not> ok then main_loop extract recent nrm kw_list (Suc t) rest st1
                 else if published art = None \<or> published art = Some [] \<or> \<not> recent t (published art)
                 then main_loop extract recent nrm kw_list (Suc t) rest st1
                 else
                   let art' = art\<lparr>art_source := Some (case source item of None \<Rightarrow> ''?'' | Some n \<Rightarrow> n)\<rparr>;
                       st2 = st1\<lparr>st_collected := st_collected st1 @ [art'],
                                 st_seen := insert u (st_seen st1)\<rparr>
                   in if sliceable (art_title art')
                      then main_loop extract recent nrm kw_list (Suc t) rest st2
                      else (st2, Some TypeError)))"

definition main_collect ::
  "listing_doc session \<Rightarrow> (string set \<Rightarrow> string list) \<Rightarrow> urljoin \<Rightarrow> source_config list \<Rightarrow>
   (nat \<Rightarrow> string \<Rightarrow> error + article) \<Rightarrow> (nat \<Rightarrow> string option \<Rightarrow> bool) \<Rightarrow> (string \<Rightarrow> string) \<Rightarrow>
   keyword_arg \<Rightarrow> loop_state \<times> error option" where
  "main_collect session so uj SOURCES extract recent nrm keyword =
     (let kw_list = make_kw_list nrm keyword;
          items = prefilter_stage nrm kw_list (parse_all_listings session so uj SOURCES)
      in main_loop extract recent nrm kw_list 0 items
           \<lparr>st_seen = load_state, st_collected = [], st_events = []\<rparr>)"

section \<open>The row rule of the regulatory table, as the specification words it\<close>

text \<open>
  A row counts when it has at least three cells and its percentage cell, comma read as
  decimal point, parses; its date is converted when it is a day/month/year date and kept as
  it is otherwise.
\<close>

definition spec_row_valid :: "(string \<Rightarrow> 'f option) \<Rightarrow> string list \<Rightarrow> bool" where
  "spec_row_valid pyfloat tds =
     (3 \<le> length tds \<and> pyfloat (map (\<lambda>c. if c = CHR '','' then CHR ''.'' else c) (tds ! 1)) \<noteq> None)"

definition spec_date :: "string \<Rightarrow> string" where
  "spec_date s = (case strptime_dmy s of Some dt \<Rightarrow> isoformat_date dt | None \<Rightarrow> s)"

definition spec_row :: "(string \<Rightarrow> 'f option) \<Rightarrow> string list \<Rightarrow> 'f short_position_row" where
  "spec_row pyfloat tds =
     \<lparr>holder = tds ! 0,
      net_short_pct = the (pyfloat (map (\<lambda>c. if c = CHR '','' then CHR ''.'' else c) (tds ! 1))),
      date = spec_date (tds ! 2)\<rparr>"

text \<open>An object of the metadata that carries the non-empty name \<open>s\<close>.\<close>

definition has_name :: "(string \<times> json) list \<Rightarrow> string \<Rightarrow> bool" where
  "has_name d s = (map_of d ''name'' = Some (JStr s) \<and> s \<noteq> [])"

section \<open>The listing resolver, as the specification words it\<close>

text \<open>
  A loop that appends and tests the cap afterwards, entered with \<open>n\<close> items, appends at
  most \<open>cap m n\<close> of what it finds: at least one.
\<close>

definition cap :: "int \<Rightarrow> nat \<Rightarrow> nat" where
  "cap m n = nat (max 1 (m - int n))"

definition urljoin_value :: "urljoin \<Rightarrow> string \<Rightarrow> string \<Rightarrow> string" where
  "urljoin_value uj base h = (case uj base h of Inl e \<Rightarrow> [] | Inr u \<Rightarrow> u)"

text \<open>
  What each tier finds in the document, before any cap: the entries of a feed that have a
  link, made absolute; the anchors whose absolute URL starts with the domain prefix; the
  URLs of the regex matches that start with the domain prefix and have no excluded segment,
  as a set, in the order Python iterates over it.
\<close>

definition atom_found :: "urljoin \<Rightarrow> string \<Rightarrow> listing_doc \<Rightarrow> listing_item list" where
  "atom_found uj base doc =
     map (\<lambda>e. mk_item (if prefix ''http'' (link e) then link e else urljoin_value uj base (link e))
                     (entry_title e) (entry_time e))
         (filter (\<lambda>e. link e \<noteq> []) (atom_entries doc))"

definition html_found :: "urljoin \<Rightarrow> string \<Rightarrow> string \<Rightarrow> listing_doc \<Rightarrow> listing_item list" where
  "html_found uj base dp doc =
     map (\<lambda>a. mk_item (urljoin_value uj base (link a)) (entry_title a) (entry_time a))
         (filter (\<lambda>a. link a \<noteq> [] \<and> prefix dp (urljoin_value uj base (link a))) (html_candidates doc))"

definition regex_found ::
  "(string set \<Rightarrow> string list) \<Rightarrow> urljoin \<Rightarrow> string \<Rightarrow> string \<Rightarrow> listing_doc \<Rightarrow> listing_item list" where
  "regex_found set_order uj base dp doc =
     map (\<lambda>u. mk_item u [] [])
         (set_order (Set.filter (\<lambda>u. prefix dp u \<and> \<not> list_ex (\<lambda>x. sublist x u) excluded_segments)
                                (urljoin_value uj base ` set (regex_hrefs doc))))"

text \<open>
  The items after the feed tier and after the structured-HTML tier: a tier adds to what is
  there only when nothing is there.
\<close>

definition after_feed :: "urljoin \<Rightarrow> string \<Rightarrow> int \<Rightarrow> listing_doc \<Rightarrow> listing_item list" where
  "after_feed uj base m doc = (if is_feed doc then take (cap m 0) (atom_found uj base doc) else [])"

definition after_html :: "urljoin \<Rightarrow> string \<Rightarrow> string \<Rightarrow> int \<Rightarrow> listing_doc \<Rightarrow> listing_item list" where
  "after_html uj base dp m doc =
     (if after_feed uj base m doc = [] then take (cap m 0) (html_found uj base dp doc)
      else after_feed uj base m doc)"

text \<open>Deduplication by url that keeps, for each url, the first item in the list.\<close>

fun first_by_url :: "listing_item list \<Rightarrow> listing_item list" where
  "first_by_url [] = []"
| "first_by_url (x # xs) = x # first_by_url (filter (\<lambda>y. url y \<noteq> url x) xs)"

section \<open>Sample inputs\<close>

text \<open>Concrete inputs on which the theorems below are exercised.\<close>

text \<open>
  The views below are those of these documents, fetched from \<^verbatim>\<open>http://x/\<close>:
  an Atom feed whose entries are
  \<^verbatim>\<open><entry><link href='http://x/a.html'/><updated>t1</updated></entry>\<close>, the same link
  again with \<^verbatim>\<open>t2\<close>, and \<^verbatim>\<open>http://x/b.html\<close> with \<^verbatim>\<open>t3\<close>, followed by
  \<^verbatim>\<open><a href="c.html">c</a><a href="video/d.html">d</a>\<close>; a page with five anchors
  \<^verbatim>\<open><h2><a href='1.html'>T</a></h2>\<close> to \<^verbatim>\<open>5.html\<close> and \<^verbatim>\<open><a href="6.html">\<close>;
  and an empty page. (The regex sees only the attributes in double quotes.)
\<close>

definition demo_urljoin :: urljoin where
  "demo_urljoin base href = (if href = ''http://['' then Inl ValueError else Inr (base @ href))"

definition demo_set_order :: "string set \<Rightarrow> string list" where
  "demo_set_order urls = sorted_list_of_set urls"

definition demo_listing_doc :: listing_doc where
  "demo_listing_doc =
     \<lparr>is_feed = True,
      rss_items = [],
      atom_entries = [\<lparr>link = ''http://x/a.html'', entry_title = [], entry_time = ''t1''\<rparr>,
                      \<lparr>link = ''http://x/a.html'', entry_title = [], entry_time = ''t2''\<rparr>,
                      \<lparr>link = ''http://x/b.html'', entry_title = [], entry_time = ''t3''\<rparr>],
      html_candidates = [],
      regex_hrefs = [''c.html'', ''video/d.html'']\<rparr>"

definition demo_listing_session :: "listing_doc session" where
  "demo_listing_session t u = Inr \<lparr>status_code = 200, body = demo_listing_doc\<rparr>"

definition demo_sources :: "source_config list" where
  "demo_sources =
     [\<lparr>name = ''S1'', listing = ''http://x/'', homepage = ''http://x/'', domain_prefix = ''http://x/'',
       max_to_fetch = 2\<rparr>,
      \<lparr>name = ''S2'', listing = ''http://x/'', homepage = ''http://x/'', domain_prefix = ''http://x/'',
       max_to_fetch = 3\<rparr>]"

definition demo_html_doc :: listing_doc where
  "demo_html_doc =
     \<lparr>is_feed = False,
      rss_items = [],
      atom_entries = [],
      html_candidates = map (\<lambda>h. \<lparr>link = h, entry_title = ''T'', entry_time = []\<rparr>)
                          [''1.html'', ''2.html'', ''3.html'', ''4.html'', ''5.html''],
      regex_hrefs = [''6.html'']\<rparr>"

definition demo_empty_doc :: listing_doc where
  "demo_empty_doc =
     \<lparr>is_feed = False, rss_items = [], atom_entries = [], html_candidates = [], regex_hrefs = []\<rparr>"

definition demo_forbidden_session :: "listing_doc session" where
  "demo_forbidden_session t u = Inr \<lparr>status_code = 403, body = demo_empty_doc\<rparr>"

definition demo_instant_of :: "string \<Rightarrow> string \<Rightarrow> rat option" where
  "demo_instant_of tzname s = Some 0"

text \<open>A parser of plain decimals, as a sample of what \<^verbatim>\<open>float\<close> does on them.\<close>

fun digits_val :: "string \<Rightarrow> nat \<Rightarrow> nat option" where
  "digits_val [] acc = Some acc"
| "digits_val (c # cs) acc =
     (case digit_val c of None \<Rightarrow> None | Some d \<Rightarrow> digits_val cs (10 * acc + d))"

definition decimal_float :: "string \<Rightarrow> rat option" where
  "decimal_float s =
     (case split_on CHR ''.'' s of
        [a] \<Rightarrow> if a = [] then None else map_option of_nat (digits_val a 0)
      | [a, b] \<Rightarrow>
          if a = [] \<and> b = [] then None
          else (case (digits_val a 0, digits_val b 0) of
                  (Some x, Some y) \<Rightarrow> Some (of_nat x + of_nat y / 10 ^ length b)
                | _ \<Rightarrow> None)
      | _ \<Rightarrow> None)"

definition demo_cnmv_page :: cnmv_page where
  "demo_cnmv_page =
     \<lparr>tables =
        [\<lparr>table_text = ''Menu'', table_rows = [[''x'']]\<rparr>,
         \<lparr>table_text = ''Outstanding net short positions Holder % Date'',
          table_rows =
            [[''Holder'', ''%'', ''Date''],
             [''Fund A'', ''1,234'', ''05/03/2024''],
             [''Fund B'', ''abc'', ''06/03/2024''],
             [''Fund C'', ''0,5''],
             [''Fund D'', ''0,61'', ''not-a-date'']]\<rparr>],
      headings = [''Posiciones cortas'', [], ''ACME SA'']\<rparr>"

definition demo_cnmv_session :: "cnmv_page session" where
  "demo_cnmv_session t u =
     (if t = 0 then Inr \<lparr>status_code = 200, body = demo_cnmv_page\<rparr>
      else if t = 1 then Inr \<lparr>status_code = 200, body = \<lparr>tables = [], headings = []\<rparr>\<rparr>
      else if t = 2 then Inr \<lparr>status_code = 503, body = \<lparr>tables = [], headings = []\<rparr>\<rparr>
      else Inl RequestException)"

definition ascii_lower :: "string \<Rightarrow> string" where
  "ascii_lower s =
     map (\<lambda>c. let n = (of_char c :: nat) in if 65 \<le> n \<and> n \<le> 90 then char_of (n + 32) else c) s"

definition demo_nrm :: "string \<Rightarrow> string" where
  "demo_nrm = norm id id ascii_lower"

definition demo_hit :: listing_item where
  "demo_hit = mk_item ''http://x/gas.html'' ''Gas'' []"

definition demo_miss :: listing_item where
  "demo_miss = mk_item ''http://x/b.html'' ''B'' []"

definition demo_article_page :: article_page where
  "demo_article_page =
     \<lparr>jsonld = Some [(''@type'', JStr ''NewsArticle''), (''headline'', JStr ''Gas news''),
                     (''datePublished'', JStr ''2024-03-05T10:00:00+01:00'')],
      tags = [\<lparr>tag_name = ''meta'', attrs = [(''charset'', ''utf-8'')], tag_text = []\<rparr>,
              \<lparr>tag_name = ''meta'', attrs = [(''name'', ''author''), (''content'', ''Jane Doe'')], tag_text = []\<rparr>],
      byline = None,
      h1 = Some ''Gas news'',
      main_text = Some ''Body text''\<rparr>"

definition demo_article_session :: "article_page session" where
  "demo_article_session t u = Inr \<lparr>status_code = 200, body = demo_article_page\<rparr>"

text \<open>
  A page with two \<^verbatim>\<open><meta name="author">\<close> elements, the first with an empty content
  and the second with the content \<^verbatim>\<open>Jane Doe\<close>, and a page whose metadata gives the
  number 5 as the headline.
\<close>

definition demo_two_authors_page :: article_page where
  "demo_two_authors_page =
     \<lparr>jsonld = Some [(''@type'', JStr ''NewsArticle''), (''headline'', JStr ''Gas news''),
                     (''datePublished'', JStr ''2024-03-05T10:00:00+01:00'')],
      tags = [\<lparr>tag_name = ''meta'', attrs = [(''name'', ''author''), (''content'', [])], tag_text = []\<rparr>,
              \<lparr>tag_name = ''meta'', attrs = [(''name'', ''author''), (''content'', ''Jane Doe'')], tag_text = []\<rparr>],
      byline = None,
      h1 = Some ''Gas news'',
      main_text = Some ''Body text''\<rparr>"

definition demo_two_authors_session :: "article_page session" where
  "demo_two_authors_session t u = Inr \<lparr>status_code = 200, body = demo_two_authors_page\<rparr>"

definition demo_numeric_page :: article_page where
  "demo_numeric_page =
     \<lparr>jsonld = Some [(''@type'', JStr ''NewsArticle''), (''headline'', JNum 5),
                     (''datePublished'', JStr ''2024-03-05T10:00:00+01:00'')],
      tags = [],
      byline = None,
      h1 = Some ''Gas news'',
      main_text = Some ''Body text''\<rparr>"

definition demo_numeric_session :: "article_page session" where
  "demo_numeric_session t u = Inr \<lparr>status_code = 200, body = demo_numeric_page\<rparr>"

definition demo_dateparse :: "string \<Rightarrow> string \<Rightarrow> string option" where
  "demo_dateparse tzname s = Some s"

definition demo_extract :: "nat \<Rightarrow> string \<Rightarrow> error + article" where
  "demo_extract t u =
     (if t = 1 then Inl RuntimeError
      else extract_article demo_article_session t demo_dateparse id u ''Europe/Madrid'')"

definition demo_recent :: "nat \<Rightarrow> string option \<Rightarrow> bool" where
  "demo_recent t p = is_recent (Some 24) demo_instant_of 1800 p ''Europe/Madrid'' None"

definition demo_numeric_extract :: "nat \<Rightarrow> string \<Rightarrow> error + article" where
  "demo_numeric_extract t u =
     extract_article demo_numeric_session t demo_dateparse id u ''Europe/Madrid''"

section \<open>Deduplication and the cap of the listing resolver\<close>

subsection \<open>Keeping the first item of each url\<close>

lemma first_by_url_set: "set (first_by_url xs) \<subseteq> set xs"
  by (induction xs rule: first_by_url.induct) auto

lemma first_by_url_urls: "url ` set (first_by_url xs) = url ` set xs"
proof (induction xs rule: first_by_url.induct)
  case 1
  then show ?case by simp
next
  case (2 x xs)
  then show ?case by auto
qed

lemma first_by_url_distinct: "distinct (map url (first_by_url xs))"
proof (induction xs rule: first_by_url.induct)
  case 1
  then show ?case by simp
next
  case (2 x xs)
  have "url x \<notin> url ` set (first_by_url (filter (\<lambda>y. url y \<noteq> url x) xs))"
    unfolding first_by_url_urls by auto
  with "2" show ?case by simp
qed

lemma first_by_url_subseq: "subseq (first_by_url xs) xs"
proof (induction xs rule: first_by_url.induct)
  case 1
  then show ?case by simp
next
  case (2 x xs)
  have "subseq (filter (\<lambda>y. url y \<noteq> url x) xs) xs" by simp
  with "2" have "subseq (first_by_url (filter (\<lambda>y. url y \<noteq> url x) xs)) xs"
    by (rule subseq_order.trans)
  then show ?case by simp
qed

lemma find_filter_other:
  "k \<noteq> u \<Longrightarrow> find (\<lambda>y. url y = k) (filter (\<lambda>y. url y \<noteq> u) xs) = find (\<lambda>y. url y = k) xs"
  by (induction xs) auto

lemma first_by_url_first:
  "it \<in> set (first_by_url xs) \<Longrightarrow> find (\<lambda>y. url y = url it) xs = Some it"
proof (induction xs rule: first_by_url.induct)
  case 1
  then show ?case by simp
next
  case (2 x xs)
  show ?case
  proof (cases "it = x")
    case True
    then show ?thesis by simp
  next
    case False
    with "2.prems" have m: "it \<in> set (first_by_url (filter (\<lambda>y. url y \<noteq> url x) xs))" by simp
    then have "it \<in> set (filter (\<lambda>y. url y \<noteq> url x) xs)" using first_by_url_set by blast
    then have ne: "url it \<noteq> url x" by simp
    from "2.IH" [OF m] have "find (\<lambda>y. url y = url it) (filter (\<lambda>y. url y \<noteq> url x) xs) = Some it" .
    with ne have "find (\<lambda>y. url y = url it) xs = Some it" by (simp add: find_filter_other)
    with ne show ?thesis by auto
  qed
qed

subsection \<open>The cap\<close>

lemma cap_stop: "m \<le> int n + 1 \<Longrightarrow> cap m n = 1"
  by (simp add: cap_def)

lemma cap_go: "\<not> m \<le> int n + 1 \<Longrightarrow> cap m n = Suc (cap m (Suc n))"
  by (simp add: cap_def nat_diff_distrib max_def)

lemma cap_pos: "0 < cap m n"
  by (simp add: cap_def)

subsection \<open>The dedup loops\<close>

lemma filter_seen_insert:
  "filter (\<lambda>y. url y \<noteq> u) (filter (\<lambda>x. url x \<notin> seen) xs) = filter (\<lambda>x. url x \<notin> insert u seen) xs"
  by (induction xs) auto

lemma dedup_loop_exact:
  "dedup_loop m items seen out
     = out @ take (cap m (length out)) (first_by_url (filter (\<lambda>x. url x \<notin> seen) items))"
proof (induction items arbitrary: seen out)
  case Nil
  then show ?case by simp
next
  case (Cons a items)
  show ?case
  proof (cases "url a \<in> seen")
    case True
    with Cons show ?thesis by simp
  next
    case False
    show ?thesis
    proof (cases "m \<le> int (length out) + 1")
      case True
      with False show ?thesis by (simp add: Let_def cap_stop)
    next
      case go: False
      from False have rhs: "first_by_url (filter (\<lambda>x. url x \<notin> seen) (a # items))
          = a # first_by_url (filter (\<lambda>x. url x \<notin> insert (url a) seen) items)"
        by (simp add: filter_seen_insert del: filter_filter insert_iff)
      from go False have "dedup_loop m (a # items) seen out
          = dedup_loop m items (insert (url a) seen) (out @ [a])" by (simp add: Let_def)
      also have "\<dots> = (out @ [a]) @ take (cap m (Suc (length out)))
          (first_by_url (filter (\<lambda>x. url x \<notin> insert (url a) seen) items))"
        using Cons.IH [of "insert (url a) seen" "out @ [a]"] by (simp del: insert_iff)
      finally show ?thesis unfolding rhs cap_go [OF go] by simp
    qed
  qed
qed

lemma global_dedup_exact:
  "global_dedup items dedup out = out @ first_by_url (filter (\<lambda>x. url x \<notin> dedup) items)"
proof (induction items arbitrary: dedup out)
  case Nil
  then show ?case by simp
next
  case (Cons a items)
  show ?case
  proof (cases "url a \<in> dedup")
    case True
    with Cons show ?thesis by simp
  next
    case False
    then have rhs: "first_by_url (filter (\<lambda>x. url x \<notin> dedup) (a # items))
        = a # first_by_url (filter (\<lambda>x. url x \<notin> insert (url a) dedup) items)"
      by (simp add: filter_seen_insert del: filter_filter insert_iff)
    from False have "global_dedup (a # items) dedup out
        = global_dedup items (insert (url a) dedup) (out @ [a])" by simp
    also have "\<dots> = (out @ [a]) @ first_by_url (filter (\<lambda>x. url x \<notin> insert (url a) dedup) items)"
      by (rule Cons.IH)
    finally show ?thesis unfolding rhs by simp
  qed
qed


lemma take_first_distinct: "distinct (map url (take k (first_by_url xs)))"
  using first_by_url_distinct [of xs] by (simp add: take_map [symmetric] distinct_take)

text \<open>
  Claim C1, as amended. A source answered with status 403 resolves to the empty list. When
  the page is fetched and the tiers discover \<open>items\<close>, the resolution is exactly the first
  \<open>max 1 max_items\<close> items of \<open>items\<close> after keeping, for each url, only its first item: so
  it has no two items with the same url, it holds at most \<open>max_items\<close> items whenever
  \<open>max_items \<ge> 1\<close>, it is in discovery order, and for \<open>max_items \<le> 0\<close> a non-empty
  discovery still yields one item, the first discovered. The global aggregate is exactly the
  concatenation of the per-source lists with, for each url, only its first item kept.
\<close>

theorem listing_resolution_dedup:
  "(http_get session t u = Inl (HTTPError 403) \<longrightarrow>
      parse_listing_document session t so uj u dp m = Inr []) \<and>
   (\<forall>res items tiers.
      http_get session t u = Inr res \<and> resolve_tiers so uj u dp m (body res) = Inr (items, tiers) \<longrightarrow>
        parse_listing_document session t so uj u dp m = Inr (take (cap m 0) (first_by_url items)) \<and>
        (items \<noteq> [] \<and> m \<le> 0 \<longrightarrow> parse_listing_document session t so uj u dp m = Inr [hd items])) \<and>
   (\<forall>out. parse_listing_document session t so uj u dp m = Inr out \<longrightarrow>
      distinct (map url out) \<and> int (length out) \<le> max 1 m \<and>
      (\<forall>res items tiers.
         http_get session t u = Inr res \<and> resolve_tiers so uj u dp m (body res) = Inr (items, tiers) \<longrightarrow>
           subseq out items \<and>
           (\<forall>it\<in>set out. find (\<lambda>x. url x = url it) items = Some it) \<and>
           length out = min (cap m 0) (length (first_by_url items)))) \<and>
   distinct (map url (first_by_url xs)) \<and>
   subseq (first_by_url xs) xs \<and>
   url ` set (first_by_url xs) = url ` set xs \<and>
   (\<forall>it\<in>set (first_by_url xs). find (\<lambda>x. url x = url it) xs = Some it) \<and>
   parse_all_listings session so uj SOURCES = first_by_url (sources_loop session so uj 0 SOURCES []) \<and>
   distinct (map url (parse_all_listings session so uj SOURCES)) \<and>
   subseq (parse_all_listings session so uj SOURCES) (sources_loop session so uj 0 SOURCES []) \<and>
   url ` set (parse_all_listings session so uj SOURCES) = url ` set (sources_loop session so uj 0 SOURCES []) \<and>
   (\<forall>it\<in>set (parse_all_listings session so uj SOURCES).
      find (\<lambda>x. url x = url it) (sources_loop session so uj 0 SOURCES []) = Some it)"
proof -
  have forbidden: "parse_listing_document session t so uj u dp m = Inr []"
    if "http_get session t u = Inl (HTTPError 403)"
    using that by (simp add: parse_listing_document_def)
  have exact: "parse_listing_document session t so uj u dp m = Inr (take (cap m 0) (first_by_url items))"
    if "http_get session t u = Inr res" "resolve_tiers so uj u dp m (body res) = Inr (items, tiers)"
    for res items tiers
    using that by (simp add: parse_listing_document_def dedup_loop_exact)
  have one: "parse_listing_document session t so uj u dp m = Inr [hd items]"
    if "http_get session t u = Inr res" "resolve_tiers so uj u dp m (body res) = Inr (items, tiers)"
      "items \<noteq> []" "m \<le> 0"
    for res items tiers
  proof -
    from that(4) have "cap m 0 = 1" by (simp add: cap_def)
    moreover from that(3) have "take 1 (first_by_url items) = [hd items]" by (cases items) simp_all
    ultimately show ?thesis using exact [OF that(1,2)] by simp
  qed
  have bounds: "distinct (map url out) \<and> int (length out) \<le> max 1 m \<and>
      (\<forall>res items tiers.
         http_get session t u = Inr res \<and> resolve_tiers so uj u dp m (body res) = Inr (items, tiers) \<longrightarrow>
           subseq out items \<and>
           (\<forall>it\<in>set out. find (\<lambda>x. url x = url it) items = Some it) \<and>
           length out = min (cap m 0) (length (first_by_url items)))"
    if r: "parse_listing_document session t so uj u dp m = Inr out" for out
  proof (cases "http_get session t u")
    case (Inl e)
    with r have "out = []"
      by (cases e) (auto simp: parse_listing_document_def split: if_splits)
    with Inl show ?thesis by simp
  next
    case (Inr res)
    with r obtain items tiers where rt: "resolve_tiers so uj u dp m (body res) = Inr (items, tiers)"
      by (auto simp: parse_listing_document_def split: sum.splits)
    from exact [OF Inr rt] r have out: "out = take (cap m 0) (first_by_url items)" by simp
    have d: "distinct (map url out)" unfolding out by (rule take_first_distinct)
    have l: "int (length out) \<le> max 1 m" unfolding out by (simp add: cap_def)
    have "subseq out (first_by_url items)" unfolding out
      by (metis append_take_drop_id prefix_def prefix_imp_subseq)
    then have s: "subseq out items"
      using first_by_url_subseq [of items] by (rule subseq_order.trans)
    have f: "\<forall>it\<in>set out. find (\<lambda>x. url x = url it) items = Some it"
      unfolding out using first_by_url_first [of _ items] by (auto dest: in_set_takeD)
    have n: "length out = min (cap m 0) (length (first_by_url items))"
      unfolding out by simp
    from d l s f n Inr rt show ?thesis by simp
  qed
  have agg: "parse_all_listings session so uj SOURCES = first_by_url (sources_loop session so uj 0 SOURCES [])"
    by (simp add: parse_all_listings_def global_dedup_exact)
  have fd: "distinct (map url (first_by_url ys))" for ys by (rule first_by_url_distinct)
  have fs: "subseq (first_by_url ys) ys" for ys by (rule first_by_url_subseq)
  have fu: "url ` set (first_by_url ys) = url ` set ys" for ys by (rule first_by_url_urls)
  have ff: "\<forall>it\<in>set (first_by_url ys). find (\<lambda>x. url x = url it) ys = Some it" for ys
    using first_by_url_first [of _ ys] by blast
  from forbidden exact one bounds fd fs fu ff show ?thesis
    unfolding agg by blast
qed


theorem listing_resolution_dedup_witness:
  "http_get demo_forbidden_session 0 ''http://x/'' = Inl (HTTPError 403) \<and>
   parse_listing_document demo_forbidden_session 0 demo_set_order demo_urljoin ''http://x/'' ''http://x/'' 2 = Inr [] \<and>
   http_get demo_listing_session 0 ''http://x/'' = Inr \<lparr>status_code = 200, body = demo_listing_doc\<rparr> \<and>
   resolve_tiers demo_set_order demo_urljoin ''http://x/'' ''http://x/'' 2 demo_listing_doc
     = Inr ([mk_item ''http://x/a.html'' [] ''t1'', mk_item ''http://x/a.html'' [] ''t2'',
             mk_item ''http://x/c.html'' [] []], [FeedTier, RegexTier]) \<and>
   parse_listing_document demo_listing_session 0 demo_set_order demo_urljoin ''http://x/'' ''http://x/'' 2
     = Inr [mk_item ''http://x/a.html'' [] ''t1'', mk_item ''http://x/c.html'' [] []] \<and>
   resolve_tiers demo_set_order demo_urljoin ''http://x/'' ''http://x/'' 0 demo_listing_doc
     = Inr ([mk_item ''http://x/a.html'' [] ''t1'', mk_item ''http://x/c.html'' [] []],
            [FeedTier, RegexTier]) \<and>
   parse_listing_document demo_listing_session 0 demo_set_order demo_urljoin ''http://x/'' ''http://x/'' 0
     = Inr [mk_item ''http://x/a.html'' [] ''t1''] \<and>
   mk_item ''http://x/c.html'' [] [] \<in> set [mk_item ''http://x/a.html'' [] ''t1'', mk_item ''http://x/c.html'' [] []] \<and>
   find (\<lambda>x. url x = url (mk_item ''http://x/c.html'' [] []))
     [mk_item ''http://x/a.html'' [] ''t1'', mk_item ''http://x/a.html'' [] ''t2'',
      mk_item ''http://x/c.html'' [] []] = Some (mk_item ''http://x/c.html'' [] []) \<and>
   parse_all_listings demo_listing_session demo_set_order demo_urljoin demo_sources
     = [mk_item ''http://x/a.html'' [] ''t1'' \<lparr>source := Some ''S1''\<rparr>,
        mk_item ''http://x/c.html'' [] [] \<lparr>source := Some ''S1''\<rparr>,
        mk_item ''http://x/b.html'' [] ''t3'' \<lparr>source := Some ''S2''\<rparr>]"
proof -
  have h403: "http_get demo_forbidden_session 0 ''http://x/'' = Inl (HTTPError 403)"
    by code_simp
  have h200: "http_get demo_listing_session 0 ''http://x/'' = Inr \<lparr>status_code = 200, body = demo_listing_doc\<rparr>"
    by code_simp
  have r2: "resolve_tiers demo_set_order demo_urljoin ''http://x/'' ''http://x/'' 2 demo_listing_doc
     = Inr ([mk_item ''http://x/a.html'' [] ''t1'', mk_item ''http://x/a.html'' [] ''t2'',
             mk_item ''http://x/c.html'' [] []], [FeedTier, RegexTier])"
    by code_simp
  have r0: "resolve_tiers demo_set_order demo_urljoin ''http://x/'' ''http://x/'' 0 demo_listing_doc
     = Inr ([mk_item ''http://x/a.html'' [] ''t1'', mk_item ''http://x/c.html'' [] []],
            [FeedTier, RegexTier])"
    by code_simp
  have sl: "sources_loop demo_listing_session demo_set_order demo_urljoin 0 demo_sources []
     = [mk_item ''http://x/a.html'' [] ''t1'' \<lparr>source := Some ''S1''\<rparr>,
        mk_item ''http://x/c.html'' [] [] \<lparr>source := Some ''S1''\<rparr>,
        mk_item ''http://x/a.html'' [] ''t1'' \<lparr>source := Some ''S2''\<rparr>,
        mk_item ''http://x/b.html'' [] ''t3'' \<lparr>source := Some ''S2''\<rparr>,
        mk_item ''http://x/c.html'' [] [] \<lparr>source := Some ''S2''\<rparr>]"
    by code_simp
  note F = listing_resolution_dedup [where session = demo_forbidden_session and t = 0
      and so = demo_set_order and uj = demo_urljoin and u = "''http://x/''" and dp = "''http://x/''"
      and m = 2 and SOURCES = demo_sources]
  note T2 = listing_resolution_dedup [where session = demo_listing_session and t = 0
      and so = demo_set_order and uj = demo_urljoin and u = "''http://x/''" and dp = "''http://x/''"
      and m = 2 and SOURCES = demo_sources]
  note T0 = listing_resolution_dedup [where session = demo_listing_session and t = 0
      and so = demo_set_order and uj = demo_urljoin and u = "''http://x/''" and dp = "''http://x/''"
      and m = 0 and SOURCES = demo_sources]
  from F h403 have c403: "parse_listing_document demo_forbidden_session 0 demo_set_order demo_urljoin
      ''http://x/'' ''http://x/'' 2 = Inr []" by blast
  from T2 h200 [unfolded demo_listing_doc_def [symmetric]] r2
  have "parse_listing_document demo_listing_session 0 demo_set_order demo_urljoin ''http://x/'' ''http://x/'' 2
     = Inr (take (cap 2 0) (first_by_url [mk_item ''http://x/a.html'' [] ''t1'',
             mk_item ''http://x/a.html'' [] ''t2'', mk_item ''http://x/c.html'' [] []]))"
    by (metis response.select_convs(2))
  then have c2: "parse_listing_document demo_listing_session 0 demo_set_order demo_urljoin ''http://x/'' ''http://x/'' 2
     = Inr [mk_item ''http://x/a.html'' [] ''t1'', mk_item ''http://x/c.html'' [] []]"
    by (simp add: cap_def mk_item_def)
  from T0 h200 r0
  have c0: "parse_listing_document demo_listing_session 0 demo_set_order demo_urljoin ''http://x/'' ''http://x/'' 0
     = Inr [hd [mk_item ''http://x/a.html'' [] ''t1'', mk_item ''http://x/c.html'' [] []]]"
    by (metis response.select_convs(2) list.distinct(1) order_refl)
  from T2 have "parse_all_listings demo_listing_session demo_set_order demo_urljoin demo_sources
     = first_by_url (sources_loop demo_listing_session demo_set_order demo_urljoin 0 demo_sources [])"
    by blast
  then have ca: "parse_all_listings demo_listing_session demo_set_order demo_urljoin demo_sources
     = [mk_item ''http://x/a.html'' [] ''t1'' \<lparr>source := Some ''S1''\<rparr>,
        mk_item ''http://x/c.html'' [] [] \<lparr>source := Some ''S1''\<rparr>,
        mk_item ''http://x/b.html'' [] ''t3'' \<lparr>source := Some ''S2''\<rparr>]"
    unfolding sl by (simp add: mk_item_def)
  have m: "mk_item ''http://x/c.html'' [] [] \<in> set [mk_item ''http://x/a.html'' [] ''t1'', mk_item ''http://x/c.html'' [] []]"
    by simp
  have f: "find (\<lambda>x. url x = url (mk_item ''http://x/c.html'' [] []))
     [mk_item ''http://x/a.html'' [] ''t1'', mk_item ''http://x/a.html'' [] ''t2'',
      mk_item ''http://x/c.html'' [] []] = Some (mk_item ''http://x/c.html'' [] [])"
    by (simp add: mk_item_def)
  from h403 c403 h200 r2 c2 r0 c0 m f ca show ?thesis by simp
qed

theorem listing_cap_counterexample:
  "parse_listing_document demo_listing_session 0 demo_set_order demo_urljoin ''http://x/'' ''http://x/'' 0
     = Inr [mk_item ''http://x/a.html'' [] ''t1''] \<and>
   \<not> int (length [mk_item ''http://x/a.html'' [] ''t1'']) \<le> 0"
proof -
  have "parse_listing_document demo_listing_session 0 demo_set_order demo_urljoin ''http://x/'' ''http://x/'' 0
     = Inr [mk_item ''http://x/a.html'' [] ''t1'']"
    by code_simp
  then show ?thesis by simp
qed

section \<open>The tier cascade\<close>

subsection \<open>The tier loops\<close>

lemma rss_loop_nothing: "rss_loop uj base m its items = Inr items"
  by (induction its) (simp_all add: link_text_def)

lemma take_cap_step:
  "take (cap m n) (x # xs) = (if m \<le> int n + 1 then [x] else x # take (cap m (Suc n)) xs)"
  by (simp add: cap_stop cap_go)

lemma atom_loop_found:
  "atom_loop uj base m es items = Inr r \<Longrightarrow>
   r = items @ take (cap m (length items))
         (map (\<lambda>e. mk_item (if prefix ''http'' (link e) then link e else urljoin_value uj base (link e))
                         (entry_title e) (entry_time e))
              (filter (\<lambda>e. link e \<noteq> []) es))"
proof (induction es arbitrary: items)
  case Nil
  then show ?case by simp
next
  case (Cons e es)
  show ?case
  proof (cases "link e = []")
    case True
    with Cons show ?thesis by simp
  next
    case False
    define href where "href = (if prefix ''http'' (link e) then link e else urljoin_value uj base (link e))"
    define it where "it = mk_item href (entry_title e) (entry_time e)"
    from Cons.prems False have ok: "(if \<not> prefix ''http'' (link e) then uj base (link e) else Inr (link e)) = Inr href"
      by (auto simp: href_def urljoin_value_def split: sum.splits if_splits)
    show ?thesis
    proof (cases "m \<le> int (length items) + 1")
      case True
      with Cons.prems False ok have "r = items @ [it]" by (simp add: Let_def it_def)
      with True False show ?thesis by (simp add: take_cap_step it_def href_def)
    next
      case go: False
      with Cons.prems False ok have "atom_loop uj base m es (items @ [it]) = Inr r"
        by (simp add: Let_def it_def)
      from Cons.IH [OF this] go False show ?thesis by (simp add: take_cap_step it_def href_def)
    qed
  qed
qed

lemma html_loop_found:
  "html_loop uj base dp m cands items = Inr r \<Longrightarrow>
   r = items @ take (cap m (length items))
         (map (\<lambda>a. mk_item (urljoin_value uj base (link a)) (entry_title a) (entry_time a))
              (filter (\<lambda>a. link a \<noteq> [] \<and> prefix dp (urljoin_value uj base (link a))) cands))"
proof (induction cands arbitrary: items)
  case Nil
  then show ?case by simp
next
  case (Cons a cands)
  show ?case
  proof (cases "link a = []")
    case True
    with Cons show ?thesis by simp
  next
    case False
    with Cons.prems obtain url_abs where ok: "uj base (link a) = Inr url_abs"
      by (auto split: sum.splits)
    then have v: "urljoin_value uj base (link a) = url_abs" by (simp add: urljoin_value_def)
    show ?thesis
    proof (cases "prefix dp url_abs")
      case np: False
      with Cons.prems False ok have "html_loop uj base dp m cands items = Inr r" by simp
      from Cons.IH [OF this] False np v show ?thesis by simp
    next
      case True
      define it where "it = mk_item url_abs (entry_title a) (entry_time a)"
      show ?thesis
      proof (cases "m \<le> int (length items) + 1")
        case stop: True
        with Cons.prems False ok True have "r = items @ [it]" by (simp add: Let_def it_def)
        with stop False True v show ?thesis by (simp add: take_cap_step it_def)
      next
        case go: False
        with Cons.prems False ok True have "html_loop uj base dp m cands (items @ [it]) = Inr r"
          by (simp add: Let_def it_def)
        from Cons.IH [OF this] go False True v show ?thesis by (simp add: take_cap_step it_def)
      qed
    qed
  qed
qed

lemma regex_loop_found:
  "regex_loop m us items = items @ take (cap m (length items)) (map (\<lambda>u. mk_item u [] []) us)"
proof (induction us arbitrary: items)
  case Nil
  then show ?case by simp
next
  case (Cons u us)
  show ?case
  proof (cases "m \<le> int (length items) + 1")
    case True
    then show ?thesis by (simp add: Let_def take_cap_step)
  next
    case False
    with Cons.IH [of "items @ [mk_item u [] []]"] show ?thesis by (simp add: Let_def take_cap_step)
  qed
qed

lemma regex_urls_found:
  "regex_urls uj base dp hrefs urls = Inr r \<Longrightarrow>
   r = urls \<union> Set.filter (\<lambda>u. prefix dp u \<and> \<not> list_ex (\<lambda>x. sublist x u) excluded_segments)
                          (urljoin_value uj base ` set hrefs)"
proof (induction hrefs arbitrary: urls)
  case Nil
  then show ?case by simp
next
  case (Cons h hrefs)
  from Cons.prems obtain u where ok: "uj base h = Inr u" by (auto split: sum.splits)
  then have v: "urljoin_value uj base h = u" by (simp add: urljoin_value_def)
  show ?case
  proof (cases "prefix dp u \<and> \<not> list_ex (\<lambda>x. sublist x u) excluded_segments")
    case True
    with Cons.prems ok have "regex_urls uj base dp hrefs (insert u urls) = Inr r" by simp
    from Cons.IH [OF this] True v show ?thesis by auto
  next
    case False
    with Cons.prems ok have "regex_urls uj base dp hrefs urls = Inr r" by auto
    from Cons.IH [OF this] False v show ?thesis by auto
  qed
qed

lemma atom_loop_total: "\<forall>h. \<exists>v. uj base h = Inr v \<Longrightarrow> \<exists>r. atom_loop uj base m es items = Inr r"
proof (induction es arbitrary: items)
  case Nil
  then show ?case by simp
next
  case (Cons e es)
  from Cons.prems obtain v where "uj base (link e) = Inr v" by blast
  with Cons.IH [OF Cons.prems] show ?case by (simp add: Let_def)
qed

lemma html_loop_total: "\<forall>h. \<exists>v. uj base h = Inr v \<Longrightarrow> \<exists>r. html_loop uj base dp m cands items = Inr r"
proof (induction cands arbitrary: items)
  case Nil
  then show ?case by simp
next
  case (Cons a cands)
  from Cons.prems obtain v where "uj base (link a) = Inr v" by blast
  with Cons.IH [OF Cons.prems] show ?case by (simp add: Let_def)
qed

lemma regex_urls_total: "\<forall>h. \<exists>v. uj base h = Inr v \<Longrightarrow> \<exists>r. regex_urls uj base dp hrefs urls = Inr r"
proof (induction hrefs arbitrary: urls)
  case Nil
  then show ?case by simp
next
  case (Cons h hrefs)
  from Cons.prems obtain v where "uj base h = Inr v" by blast
  with Cons.IH [OF Cons.prems] show ?case by simp
qed


subsection \<open>The tiers\<close>

lemma feed_tier_exact:
  assumes "feed_tier uj base m doc = Inr (items, tiers)"
  shows "items = after_feed uj base m doc \<and> tiers = (if is_feed doc then [FeedTier] else [])"
proof (cases "is_feed doc")
  case False
  with assms show ?thesis by (simp add: feed_tier_def after_feed_def)
next
  case True
  with assms have a: "atom_loop uj base m (atom_entries doc) [] = Inr items" and t: "tiers = [FeedTier]"
    by (auto simp: feed_tier_def rss_loop_nothing split: sum.splits)
  from atom_loop_found [OF a] t True show ?thesis
    by (simp add: after_feed_def atom_found_def)
qed

lemma html_tier_exact:
  assumes "html_tier uj base dp m doc (after_feed uj base m doc, tiers) = Inr (items, tiers')"
  shows "items = after_html uj base dp m doc \<and>
         tiers' = tiers @ (if after_feed uj base m doc = [] then [HtmlTier] else [])"
proof (cases "after_feed uj base m doc = []")
  case False
  with assms show ?thesis by (simp add: html_tier_def after_html_def)
next
  case True
  with assms have a: "html_loop uj base dp m (html_candidates doc) [] = Inr items"
    and t: "tiers' = tiers @ [HtmlTier]"
    by (auto simp: html_tier_def split: sum.splits)
  from html_loop_found [OF a] t True show ?thesis
    by (simp add: after_html_def html_found_def)
qed

lemma regex_tier_exact:
  assumes "regex_tier so uj base dp m doc (its, tiers) = Inr (items, tiers')"
  shows "items = (if length its < 5
                  then its @ take (cap m (length its)) (regex_found so uj base dp doc) else its) \<and>
         tiers' = tiers @ (if length its < 5 then [RegexTier] else [])"
proof (cases "length its < 5")
  case False
  with assms show ?thesis by (simp add: regex_tier_def)
next
  case True
  with assms obtain urls where a: "regex_urls uj base dp (regex_hrefs doc) {} = Inr urls"
    and i: "items = regex_loop m (so urls) its" and t: "tiers' = tiers @ [RegexTier]"
    by (auto simp: regex_tier_def extract_urls_regex_def split: sum.splits)
  from regex_urls_found [OF a] i t True show ?thesis
    by (simp add: regex_loop_found regex_found_def)
qed

lemma resolve_tiers_total:
  assumes "\<forall>h. \<exists>v. uj base h = Inr v"
  shows "\<exists>items tiers. resolve_tiers so uj base dp m doc = Inr (items, tiers)"
proof -
  from assms atom_loop_total [of uj base m "atom_entries doc" "[]"]
  obtain r1 where a: "atom_loop uj base m (atom_entries doc) [] = Inr r1"
    by blast
  have "\<exists>st1. feed_tier uj base m doc = Inr st1"
    by (simp add: feed_tier_def rss_loop_nothing a)
  then obtain st1 where f: "feed_tier uj base m doc = Inr st1" ..
  from assms html_loop_total [of uj base dp m "html_candidates doc" "[]"]
  obtain r2 where h: "html_loop uj base dp m (html_candidates doc) [] = Inr r2"
    by blast
  have "\<exists>st2. html_tier uj base dp m doc st1 = Inr st2"
    by (cases st1) (simp add: html_tier_def h)
  then obtain st2 where g: "html_tier uj base dp m doc st1 = Inr st2" ..
  from assms regex_urls_total [of uj base dp "regex_hrefs doc" "{}"]
  obtain r3 where r: "regex_urls uj base dp (regex_hrefs doc) {} = Inr r3"
    by blast
  have "\<exists>st3. regex_tier so uj base dp m doc st2 = Inr st3"
    by (cases st2) (simp add: regex_tier_def extract_urls_regex_def r)
  then obtain st3 where "regex_tier so uj base dp m doc st2 = Inr st3" ..
  with f g show ?thesis by (cases st3) (simp add: resolve_tiers_def)
qed

text \<open>
  Claim C3. When the cascade returns, the feed tier has run iff the document is a feed, the
  structured-HTML tier has run iff the feed tier left no item, and the regex tier has run
  iff fewer than five items were there after the first two tiers, which includes every
  case where the structured-HTML tier left none; the tiers run in this order. What each
  tier that ran added is what it finds in the document, up to the cap, and a tier that did
  not run added nothing. The cascade returns whenever \<^verbatim>\<open>urljoin\<close> does.
\<close>

theorem cascade_tier_guards:
  "(resolve_tiers so uj base dp m doc = Inr (items, tiers) \<longrightarrow>
      (FeedTier \<in> set tiers \<longleftrightarrow> is_feed doc) \<and>
      (HtmlTier \<in> set tiers \<longleftrightarrow> after_feed uj base m doc = []) \<and>
      (RegexTier \<in> set tiers \<longleftrightarrow> length (after_html uj base dp m doc) < 5) \<and>
      (after_html uj base dp m doc = [] \<longrightarrow> RegexTier \<in> set tiers) \<and>
      tiers = (if is_feed doc then [FeedTier] else []) @
              (if after_feed uj base m doc = [] then [HtmlTier] else []) @
              (if length (after_html uj base dp m doc) < 5 then [RegexTier] else []) \<and>
      feed_tier uj base m doc
        = Inr (after_feed uj base m doc, if is_feed doc then [FeedTier] else []) \<and>
      html_tier uj base dp m doc (after_feed uj base m doc, if is_feed doc then [FeedTier] else [])
        = Inr (after_html uj base dp m doc,
               (if is_feed doc then [FeedTier] else []) @
               (if after_feed uj base m doc = [] then [HtmlTier] else [])) \<and>
      items = (if length (after_html uj base dp m doc) < 5
               then after_html uj base dp m doc @
                    take (cap m (length (after_html uj base dp m doc))) (regex_found so uj base dp doc)
               else after_html uj base dp m doc)) \<and>
   ((\<forall>h. \<exists>v. uj base h = Inr v) \<longrightarrow>
      (\<exists>items tiers. resolve_tiers so uj base dp m doc = Inr (items, tiers)))"
proof (intro conjI impI)
  assume r: "resolve_tiers so uj base dp m doc = Inr (items, tiers)"
  then obtain i1 t1 i2 t2 where f: "feed_tier uj base m doc = Inr (i1, t1)"
    and h: "html_tier uj base dp m doc (i1, t1) = Inr (i2, t2)"
    and g: "regex_tier so uj base dp m doc (i2, t2) = Inr (items, tiers)"
    by (auto simp: resolve_tiers_def split: sum.splits)
  from feed_tier_exact [OF f]
  have i1: "i1 = after_feed uj base m doc" and t1: "t1 = (if is_feed doc then [FeedTier] else [])"
    by simp_all
  from html_tier_exact [OF h [unfolded i1]]
  have i2: "i2 = after_html uj base dp m doc"
    and t2: "t2 = t1 @ (if after_feed uj base m doc = [] then [HtmlTier] else [])"
    by simp_all
  from regex_tier_exact [OF g]
  have i3: "items = (if length i2 < 5
                  then i2 @ take (cap m (length i2)) (regex_found so uj base dp doc) else i2)"
    and t3: "tiers = t2 @ (if length i2 < 5 then [RegexTier] else [])"
    by simp_all
  show ts: "tiers = (if is_feed doc then [FeedTier] else []) @
              (if after_feed uj base m doc = [] then [HtmlTier] else []) @
              (if length (after_html uj base dp m doc) < 5 then [RegexTier] else [])"
    unfolding t3 t2 t1 i2 by simp
  show "(FeedTier \<in> set tiers) = is_feed doc" unfolding ts by simp
  show "(HtmlTier \<in> set tiers) = (after_feed uj base m doc = [])" unfolding ts by simp
  show rg: "(RegexTier \<in> set tiers) = (length (after_html uj base dp m doc) < 5)" unfolding ts by simp
  show "RegexTier \<in> set tiers" if "after_html uj base dp m doc = []"
    unfolding rg using that by simp
  show "feed_tier uj base m doc = Inr (after_feed uj base m doc, if is_feed doc then [FeedTier] else [])"
    using f unfolding i1 t1 .
  show "html_tier uj base dp m doc (after_feed uj base m doc, if is_feed doc then [FeedTier] else [])
        = Inr (after_html uj base dp m doc,
               (if is_feed doc then [FeedTier] else []) @
               (if after_feed uj base m doc = [] then [HtmlTier] else []))"
    using h unfolding i1 t2 t1 i2 .
  show "items = (if length (after_html uj base dp m doc) < 5
               then after_html uj base dp m doc @
                    take (cap m (length (after_html uj base dp m doc))) (regex_found so uj base dp doc)
               else after_html uj base dp m doc)"
    using i3 unfolding i2 .
next
  assume "\<forall>h. \<exists>v. uj base h = Inr v"
  then show "\<exists>items tiers. resolve_tiers so uj base dp m doc = Inr (items, tiers)"
    by (rule resolve_tiers_total)
qed

theorem cascade_tier_guards_witness:
  "resolve_tiers demo_set_order demo_urljoin ''http://x/'' ''http://x/'' 2 demo_listing_doc
     = Inr ([mk_item ''http://x/a.html'' [] ''t1'', mk_item ''http://x/a.html'' [] ''t2'',
             mk_item ''http://x/c.html'' [] []], [FeedTier, RegexTier]) \<and>
   is_feed demo_listing_doc \<and>
   after_feed demo_urljoin ''http://x/'' 2 demo_listing_doc
     = [mk_item ''http://x/a.html'' [] ''t1'', mk_item ''http://x/a.html'' [] ''t2''] \<and>
   after_html demo_urljoin ''http://x/'' ''http://x/'' 2 demo_listing_doc
     = [mk_item ''http://x/a.html'' [] ''t1'', mk_item ''http://x/a.html'' [] ''t2''] \<and>
   take (cap 2 2) (regex_found demo_set_order demo_urljoin ''http://x/'' ''http://x/'' demo_listing_doc)
     = [mk_item ''http://x/c.html'' [] []] \<and>
   resolve_tiers demo_set_order demo_urljoin ''http://x/'' ''http://x/'' 9 demo_html_doc
     = Inr ([mk_item ''http://x/1.html'' ''T'' [], mk_item ''http://x/2.html'' ''T'' [],
             mk_item ''http://x/3.html'' ''T'' [], mk_item ''http://x/4.html'' ''T'' [],
             mk_item ''http://x/5.html'' ''T'' []], [HtmlTier]) \<and>
   \<not> is_feed demo_html_doc \<and>
   after_feed demo_urljoin ''http://x/'' 9 demo_html_doc = [] \<and>
   length (after_html demo_urljoin ''http://x/'' ''http://x/'' 9 demo_html_doc) = 5 \<and>
   resolve_tiers demo_set_order demo_urljoin ''http://x/'' ''http://x/'' 9 demo_empty_doc
     = Inr ([], [HtmlTier, RegexTier]) \<and>
   after_html demo_urljoin ''http://x/'' ''http://x/'' 9 demo_empty_doc = [] \<and>
   resolve_tiers demo_set_order (\<lambda>b h. Inr (b @ h)) ''http://x/'' ''http://x/'' 9 demo_empty_doc
     = Inr ([], [HtmlTier, RegexTier])"
proof -
  let ?a1 = "mk_item ''http://x/a.html'' [] ''t1''"
  let ?a2 = "mk_item ''http://x/a.html'' [] ''t2''"
  let ?c = "mk_item ''http://x/c.html'' [] []"
  let ?five = "[mk_item ''http://x/1.html'' ''T'' [], mk_item ''http://x/2.html'' ''T'' [],
             mk_item ''http://x/3.html'' ''T'' [], mk_item ''http://x/4.html'' ''T'' [],
             mk_item ''http://x/5.html'' ''T'' []]"
  have r1: "resolve_tiers demo_set_order demo_urljoin ''http://x/'' ''http://x/'' 2 demo_listing_doc
     = Inr ([?a1, ?a2, ?c], [FeedTier, RegexTier])"
    by code_simp
  have r2: "resolve_tiers demo_set_order demo_urljoin ''http://x/'' ''http://x/'' 9 demo_html_doc
     = Inr (?five, [HtmlTier])"
    by code_simp
  have r3: "resolve_tiers demo_set_order demo_urljoin ''http://x/'' ''http://x/'' 9 demo_empty_doc
     = Inr ([], [HtmlTier, RegexTier])"
    by code_simp
  have f1: "after_feed demo_urljoin ''http://x/'' 2 demo_listing_doc = [?a1, ?a2]"
    by code_simp
  note T1 = cascade_tier_guards [where so = demo_set_order and uj = demo_urljoin
      and base = "''http://x/''" and dp = "''http://x/''" and m = 2 and doc = demo_listing_doc
      and items = "[?a1, ?a2, ?c]" and tiers = "[FeedTier, RegexTier]"]
  note T2 = cascade_tier_guards [where so = demo_set_order and uj = demo_urljoin
      and base = "''http://x/''" and dp = "''http://x/''" and m = 9 and doc = demo_html_doc
      and items = ?five and tiers = "[HtmlTier]"]
  note T3 = cascade_tier_guards [where so = demo_set_order and uj = demo_urljoin
      and base = "''http://x/''" and dp = "''http://x/''" and m = 9 and doc = demo_empty_doc
      and items = "[]" and tiers = "[HtmlTier, RegexTier]"]
  note T4 = cascade_tier_guards [where so = demo_set_order and uj = "\<lambda>b h. Inr (b @ h)"
      and base = "''http://x/''" and dp = "''http://x/''" and m = 9 and doc = demo_empty_doc
      and items = "[]" and tiers = "[HtmlTier, RegexTier]"]
  note C1 = T1 [THEN conjunct1, THEN mp, OF r1]
  note C2 = T2 [THEN conjunct1, THEN mp, OF r2]
  note C3 = T3 [THEN conjunct1, THEN mp, OF r3]
  from C1 [THEN conjunct1] have g1: "is_feed demo_listing_doc"
    by simp
  from C1 [THEN conjunct2, THEN conjunct1]
  have n1: "after_feed demo_urljoin ''http://x/'' 2 demo_listing_doc \<noteq> []"
    by simp
  from C1 [THEN conjunct2, THEN conjunct2, THEN conjunct1]
  have l1: "length (after_html demo_urljoin ''http://x/'' ''http://x/'' 2 demo_listing_doc) < 5"
    by simp
  from n1 f1 have h1: "after_html demo_urljoin ''http://x/'' ''http://x/'' 2 demo_listing_doc = [?a1, ?a2]"
    by (simp add: after_html_def)
  note I1 = C1 [THEN conjunct2, THEN conjunct2, THEN conjunct2, THEN conjunct2, THEN conjunct2,
      THEN conjunct2, THEN conjunct2, unfolded h1]
  have x1: "take (cap 2 2)
      (regex_found demo_set_order demo_urljoin ''http://x/'' ''http://x/'' demo_listing_doc) = [?c]"
    using I1 by (simp add: numeral_2_eq_2)
  from C2 [THEN conjunct1] have g2: "\<not> is_feed demo_html_doc"
    by simp
  from C2 [THEN conjunct2, THEN conjunct1]
  have e2: "after_feed demo_urljoin ''http://x/'' 9 demo_html_doc = []"
    by simp
  from C2 [THEN conjunct2, THEN conjunct2, THEN conjunct1]
  have l2: "\<not> length (after_html demo_urljoin ''http://x/'' ''http://x/'' 9 demo_html_doc) < 5"
    by simp
  note I2 = C2 [THEN conjunct2, THEN conjunct2, THEN conjunct2, THEN conjunct2, THEN conjunct2,
      THEN conjunct2, THEN conjunct2]
  from I2 l2 have "after_html demo_urljoin ''http://x/'' ''http://x/'' 9 demo_html_doc = ?five"
    by (simp only: if_False)
  then have h2: "length (after_html demo_urljoin ''http://x/'' ''http://x/'' 9 demo_html_doc) = 5"
    by simp
  from C3 [THEN conjunct2, THEN conjunct2, THEN conjunct1]
  have l3: "length (after_html demo_urljoin ''http://x/'' ''http://x/'' 9 demo_empty_doc) < 5"
    by simp
  note I3 = C3 [THEN conjunct2, THEN conjunct2, THEN conjunct2, THEN conjunct2, THEN conjunct2,
      THEN conjunct2, THEN conjunct2]
  from I3 l3 have h3: "after_html demo_urljoin ''http://x/'' ''http://x/'' 9 demo_empty_doc = []"
    by simp
  from T4 obtain items tiers where
    r4: "resolve_tiers demo_set_order (\<lambda>b h. Inr (b @ h)) ''http://x/'' ''http://x/'' 9 demo_empty_doc
      = Inr (items, tiers)"
    by blast
  have "resolve_tiers demo_set_order (\<lambda>b h. Inr (b @ h)) ''http://x/'' ''http://x/'' 9 demo_empty_doc
      = Inr ([], [HtmlTier, RegexTier])"
    by code_simp
  with r1 g1 f1 h1 x1 r2 g2 e2 h2 r3 h3 show ?thesis by simp
qed

section \<open>Recency\<close>

text \<open>
  Claim C6, as amended. For windows \<open>w\<close> and \<open>w'\<close> other than 0 with \<open>w < w'\<close>, an
  instant that is recent at \<open>w\<close> hours is recent at \<open>w'\<close> hours (same clock reading,
  same zone). A window of 0 is not a window: it stands for the configured default, as an
  absent window does. An absent or empty timestamp is never recent.
\<close>

theorem is_recent_monotone:
  "(w \<noteq> 0 \<and> w' \<noteq> 0 \<and> w < w' \<and> is_recent cfg_hours instant_of now dt_iso tzname (Some w)
      \<longrightarrow> is_recent cfg_hours instant_of now dt_iso tzname (Some w')) \<and>
   (is_recent cfg_hours instant_of now dt_iso tzname (Some 0)
      = is_recent cfg_hours instant_of now dt_iso tzname None) \<and>
   \<not> is_recent cfg_hours instant_of now None tzname hours \<and>
   \<not> is_recent cfg_hours instant_of now (Some []) tzname hours"
proof -
  have mono: "is_recent cfg_hours instant_of now dt_iso tzname (Some w')"
    if "w \<noteq> 0" "w' \<noteq> 0" "w < w'" and r: "is_recent cfg_hours instant_of now dt_iso tzname (Some w)"
  proof -
    from r \<open>w \<noteq> 0\<close> obtain s dt where s: "dt_iso = Some s" "s \<noteq> []" "instant_of tzname s = Some dt"
      and le: "now - dt \<le> w * 3600"
      by (auto simp: is_recent_def effective_hours_def split: option.splits if_splits)
    from \<open>w < w'\<close> have "w * 3600 \<le> w' * 3600" by simp
    with le have "now - dt \<le> w' * 3600" by (rule order_trans)
    with s \<open>w' \<noteq> 0\<close> show ?thesis by (simp add: is_recent_def effective_hours_def)
  qed
  have zero: "is_recent cfg_hours instant_of now dt_iso tzname (Some 0)
      = is_recent cfg_hours instant_of now dt_iso tzname None"
    by (simp add: is_recent_def effective_hours_def)
  have absent: "\<not> is_recent cfg_hours instant_of now None tzname hours"
    "\<not> is_recent cfg_hours instant_of now (Some []) tzname hours"
    by (simp_all add: is_recent_def)
  from mono zero absent show ?thesis by blast
qed

theorem is_recent_monotone_witness:
  "(1::rat) \<noteq> 0 \<and> (2::rat) \<noteq> 0 \<and> (1::rat) < 2 \<and>
   is_recent (Some 24) demo_instant_of 1800 (Some ''2024-03-05T10:00:00+01:00'') ''Europe/Madrid'' (Some 1) \<and>
   is_recent (Some 24) demo_instant_of 1800 (Some ''2024-03-05T10:00:00+01:00'') ''Europe/Madrid'' (Some 2)"
  using is_recent_monotone [of 1 2 "Some 24" demo_instant_of 1800 "Some ''2024-03-05T10:00:00+01:00''" "''Europe/Madrid''"]
  by (simp add: is_recent_def effective_hours_def demo_instant_of_def)

text \<open>
  With the default of 24 hours, an instant ten hours old is recent at the window 0 (read as
  the default) and not recent at the window 1.
\<close>

theorem is_recent_zero_window_counterexample:
  "(0::rat) < 1 \<and>
   is_recent (Some 24) demo_instant_of 36000 (Some ''2024-03-05T10:00:00+01:00'') ''Europe/Madrid'' (Some 0) \<and>
   \<not> is_recent (Some 24) demo_instant_of 36000 (Some ''2024-03-05T10:00:00+01:00'') ''Europe/Madrid'' (Some 1)"
  by (simp add: is_recent_def effective_hours_def demo_instant_of_def)

section \<open>Rows of the regulatory table\<close>

lemma py_replace_comma:
  "py_replace '','' ''.'' s = map (\<lambda>c. if c = CHR '','' then CHR ''.'' else c) s"
  by (induction s) auto

lemma rows_loop_acc:
  "rows_loop pyfloat trs rs =
   rs @ map (spec_row pyfloat) (filter (spec_row_valid pyfloat) trs)"
proof (induction trs arbitrary: rs)
  case Nil
  then show ?case by simp
next
  case (Cons tds trs)
  show ?case
  proof (cases "spec_row_valid pyfloat tds")
    case True
    then obtain p where p: "pyfloat (py_replace '','' ''.'' (tds ! 1)) = Some p" and l: "\<not> length tds < 3"
      by (auto simp: spec_row_valid_def py_replace_comma)
    then have "spec_row pyfloat tds
        = \<lparr>holder = tds ! 0, net_short_pct = p,
           date = (case strptime_dmy (tds ! 2) of Some dt \<Rightarrow> isoformat_date dt | None \<Rightarrow> tds ! 2)\<rparr>"
      by (simp add: spec_row_def spec_date_def py_replace_comma)
    with True p l Cons.IH show ?thesis by (simp add: Let_def)
  next
    case False
    then have "length tds < 3 \<or> pyfloat (py_replace '','' ''.'' (tds ! 1)) = None"
      by (auto simp: spec_row_valid_def py_replace_comma)
    with False Cons.IH show ?thesis by (auto simp: Let_def)
  qed
qed

text \<open>
  Claim C5. When the page is fetched and the positions table found, the rows of the block
  are, in table order, the rows after the first that have at least three cells and whose
  percentage cell parses with comma read as decimal point; each carries its first cell as
  holder, the parsed percentage, and the date converted to ISO form when it is a
  day/month/year date and unchanged otherwise. The cell \<^verbatim>\<open>1,234\<close> goes to the float
  parser as \<^verbatim>\<open>1.234\<close>; a row whose cell \<^verbatim>\<open>abc\<close> does not parse is dropped and the rows
  around it are what they are without it; \<^verbatim>\<open>05/03/2024\<close> becomes \<^verbatim>\<open>2024-03-05\<close> and
  \<^verbatim>\<open>not-a-date\<close> stays.
\<close>

theorem cnmv_rows_parsed:
  "(\<forall>res table. http_get session t (cnmv_url L n lang) = Inr res \<and>
        find_table (tables (body res)) = Some table \<longrightarrow>
      (\<exists>logs b. get_cnmv_short_positions session t L lower pyfloat n lang = Inr (logs, Some b) \<and>
         rows b = map (spec_row pyfloat) (filter (spec_row_valid pyfloat) (drop 1 (table_rows table))))) \<and>
   rows_loop pyfloat trs [] = map (spec_row pyfloat) (filter (spec_row_valid pyfloat) trs) \<and>
   (\<forall>tds v. 3 \<le> length tds \<and> tds ! 1 = ''1,234'' \<and> pyfloat ''1.234'' = Some v \<longrightarrow>
      rows_loop pyfloat [tds] [] = [\<lparr>holder = tds ! 0, net_short_pct = v, date = spec_date (tds ! 2)\<rparr>]) \<and>
   (\<forall>tds. tds ! 1 = ''abc'' \<and> pyfloat ''abc'' = None \<longrightarrow>
      rows_loop pyfloat (xs @ [tds] @ ys) [] = rows_loop pyfloat (xs @ ys) []) \<and>
   spec_date ''05/03/2024'' = ''2024-03-05'' \<and>
   spec_date ''not-a-date'' = ''not-a-date''"
proof -
  have block: "\<exists>logs b. get_cnmv_short_positions session t L lower pyfloat n lang = Inr (logs, Some b) \<and>
         rows b = map (spec_row pyfloat) (filter (spec_row_valid pyfloat) (drop 1 (table_rows table)))"
    if "http_get session t (cnmv_url L n lang) = Inr res" "find_table (tables (body res)) = Some table"
    for res table
    using that by (simp add: get_cnmv_short_positions_def Let_def rows_loop_acc)
  have all: "rows_loop pyfloat trs [] = map (spec_row pyfloat) (filter (spec_row_valid pyfloat) trs)"
    for trs
    by (simp add: rows_loop_acc)
  have good: "rows_loop pyfloat [tds] [] = [\<lparr>holder = tds ! 0, net_short_pct = v, date = spec_date (tds ! 2)\<rparr>]"
    if "3 \<le> length tds" "tds ! 1 = ''1,234''" "pyfloat ''1.234'' = Some v" for tds v
    using that by (simp add: rows_loop_acc spec_row_valid_def spec_row_def)
  have bad: "rows_loop pyfloat (xs @ [tds] @ ys) [] = rows_loop pyfloat (xs @ ys) []"
    if "tds ! 1 = ''abc''" "pyfloat ''abc'' = None" for tds
    using that by (simp add: rows_loop_acc spec_row_valid_def)
  have d1: "spec_date ''05/03/2024'' = ''2024-03-05''"
    by (simp add: spec_date_def strptime_dmy_def digit_val_def days_in_month_def
        isoformat_date_def digit_char_def)
  have d2: "spec_date ''not-a-date'' = ''not-a-date''"
    by (simp add: spec_date_def strptime_dmy_def)
  from block all good bad d1 d2 show ?thesis by blast
qed


theorem cnmv_rows_parsed_witness:
  "http_get demo_cnmv_session 0 (cnmv_url ''es'' ''A-1'' None)
     = Inr \<lparr>status_code = 200, body = demo_cnmv_page\<rparr> \<and>
   find_table (tables demo_cnmv_page) = Some (tables demo_cnmv_page ! 1) \<and>
   get_cnmv_short_positions demo_cnmv_session 0 ''es'' ascii_lower decimal_float ''A-1'' None =
     Inr ([], Some \<lparr>nif = ''A-1'', issuer = ''ACME SA'',
                    block_url = ''https://www.cnmv.es/Portal/Consultas/ee/posicionescortas?nif=A-1&lang=es'',
                    rows = [\<lparr>holder = ''Fund A'', net_short_pct = 617 / 500, date = ''2024-03-05''\<rparr>,
                            \<lparr>holder = ''Fund D'', net_short_pct = 61 / 100, date = ''not-a-date''\<rparr>]\<rparr>) \<and>
   (3::nat) \<le> length [''Fund A'', ''1,234'', ''05/03/2024''] \<and>
   [''Fund A'', ''1,234'', ''05/03/2024''] ! 1 = ''1,234'' \<and>
   decimal_float ''1.234'' = Some (617 / 500) \<and>
   rows_loop decimal_float [[''Fund A'', ''1,234'', ''05/03/2024'']] []
     = [\<lparr>holder = ''Fund A'', net_short_pct = 617 / 500, date = ''2024-03-05''\<rparr>] \<and>
   [''Fund B'', ''abc'', ''06/03/2024''] ! 1 = ''abc'' \<and>
   decimal_float ''abc'' = None \<and>
   rows_loop decimal_float
     ([[''Fund A'', ''1,234'', ''05/03/2024'']] @ [[''Fund B'', ''abc'', ''06/03/2024'']] @
      [[''Fund D'', ''0,61'', ''not-a-date'']]) []
     = rows_loop decimal_float
         ([[''Fund A'', ''1,234'', ''05/03/2024'']] @ [[''Fund D'', ''0,61'', ''not-a-date'']]) []"
proof -
  have e1: "http_get demo_cnmv_session 0 (cnmv_url ''es'' ''A-1'' None)
       = Inr \<lparr>status_code = 200, body = demo_cnmv_page\<rparr>"
    by code_simp
  have e2: "find_table (tables demo_cnmv_page) = Some (tables demo_cnmv_page ! 1)"
    by code_simp
  have e3: "get_cnmv_short_positions demo_cnmv_session 0 ''es'' ascii_lower decimal_float ''A-1'' None =
     Inr ([], Some \<lparr>nif = ''A-1'', issuer = ''ACME SA'',
                    block_url = ''https://www.cnmv.es/Portal/Consultas/ee/posicionescortas?nif=A-1&lang=es'',
                    rows = [\<lparr>holder = ''Fund A'', net_short_pct = 617 / 500, date = ''2024-03-05''\<rparr>,
                            \<lparr>holder = ''Fund D'', net_short_pct = 61 / 100, date = ''not-a-date''\<rparr>]\<rparr>)"
    by code_simp
  have e4: "decimal_float ''1.234'' = Some (617 / 500)" "decimal_float ''abc'' = None"
    by code_simp+
  have e5: "spec_date ''05/03/2024'' = ''2024-03-05''"
    by code_simp
  note T = cnmv_rows_parsed [where session = demo_cnmv_session and t = 0 and L = "''es''"
      and n = "''A-1''" and lang = None and lower = ascii_lower and pyfloat = decimal_float
      and xs = "[[''Fund A'', ''1,234'', ''05/03/2024'']]"
      and ys = "[[''Fund D'', ''0,61'', ''not-a-date'']]"]
  from T have G: "3 \<le> length tds \<Longrightarrow> tds ! 1 = ''1,234'' \<Longrightarrow> decimal_float ''1.234'' = Some v \<Longrightarrow>
      rows_loop decimal_float [tds] [] = [\<lparr>holder = tds ! 0, net_short_pct = v, date = spec_date (tds ! 2)\<rparr>]"
    for tds v by blast
  from T have B: "tds ! 1 = ''abc'' \<Longrightarrow> decimal_float ''abc'' = None \<Longrightarrow>
      rows_loop decimal_float
        ([[''Fund A'', ''1,234'', ''05/03/2024'']] @ [tds] @ [[''Fund D'', ''0,61'', ''not-a-date'']]) []
      = rows_loop decimal_float
          ([[''Fund A'', ''1,234'', ''05/03/2024'']] @ [[''Fund D'', ''0,61'', ''not-a-date'']]) []"
    for tds by blast
  have good: "rows_loop decimal_float [[''Fund A'', ''1,234'', ''05/03/2024'']] []
     = [\<lparr>holder = ''Fund A'', net_short_pct = 617 / 500, date = ''2024-03-05''\<rparr>]"
    using G [of "[''Fund A'', ''1,234'', ''05/03/2024'']" "617 / 500"] e4 e5
    by (simp del: rows_loop.simps)
  have bad: "rows_loop decimal_float
     ([[''Fund A'', ''1,234'', ''05/03/2024'']] @ [[''Fund B'', ''abc'', ''06/03/2024'']] @
      [[''Fund D'', ''0,61'', ''not-a-date'']]) []
     = rows_loop decimal_float
         ([[''Fund A'', ''1,234'', ''05/03/2024'']] @ [[''Fund D'', ''0,61'', ''not-a-date'']]) []"
    using B [of "[''Fund B'', ''abc'', ''06/03/2024'']"] e4
    by (simp del: rows_loop.simps)
  from e1 e2 e3 e4 good bad show ?thesis by (simp del: rows_loop.simps)
qed

section \<open>Failure behaviour of the regulatory scraper\<close>

lemma find_table_None: "find_table ts = None \<longleftrightarrow> (\<forall>tb\<in>set ts. \<not> is_positions_table tb)"
  by (induction ts) auto

text \<open>
  Claim C8. The scraper returns for every identifier, language and response of the network;
  no exception reaches its caller. When the fetch fails it logs the failure and returns
  nothing; when the page is fetched and no table has the English or the Spanish marker
  phrase in its flattened text, it logs that and returns the block of the identifier with
  an empty issuer and no rows.
\<close>

theorem cnmv_scraper_never_raises:
  "(\<exists>logs r. get_cnmv_short_positions session t L lower pyfloat n lang = Inr (logs, r)) \<and>
   (\<forall>e. http_get session t (cnmv_url L n lang) = Inl e \<longrightarrow>
      get_cnmv_short_positions session t L lower pyfloat n lang
        = Inr ([LogFetchError (cnmv_url L n lang) e], None)) \<and>
   (\<forall>res. http_get session t (cnmv_url L n lang) = Inr res \<and>
      (\<forall>tb\<in>set (tables (body res)).
         \<not> sublist ''Outstanding net short positions'' (table_text tb) \<and>
         \<not> sublist ''Notificaciones vivas iguales o superiores al 0,5%'' (table_text tb)) \<longrightarrow>
      get_cnmv_short_positions session t L lower pyfloat n lang
        = Inr ([LogNoTable n], Some \<lparr>nif = n, issuer = [], block_url = cnmv_url L n lang, rows = []\<rparr>))"
proof -
  have total: "\<exists>logs r. get_cnmv_short_positions session t L lower pyfloat n lang = Inr (logs, r)"
    by (simp add: get_cnmv_short_positions_def Let_def split: sum.splits option.splits)
  have fail: "get_cnmv_short_positions session t L lower pyfloat n lang
        = Inr ([LogFetchError (cnmv_url L n lang) e], None)"
    if "http_get session t (cnmv_url L n lang) = Inl e" for e
    using that by (simp add: get_cnmv_short_positions_def Let_def)
  have none: "get_cnmv_short_positions session t L lower pyfloat n lang
        = Inr ([LogNoTable n], Some \<lparr>nif = n, issuer = [], block_url = cnmv_url L n lang, rows = []\<rparr>)"
    if g: "http_get session t (cnmv_url L n lang) = Inr res"
      and nt: "\<forall>tb\<in>set (tables (body res)).
         \<not> sublist ''Outstanding net short positions'' (table_text tb) \<and>
         \<not> sublist ''Notificaciones vivas iguales o superiores al 0,5%'' (table_text tb)"
    for res
  proof -
    from nt have "find_table (tables (body res)) = None"
      by (simp add: find_table_None is_positions_table_def)
    with g show ?thesis by (simp add: get_cnmv_short_positions_def Let_def)
  qed
  from total fail none show ?thesis by blast
qed

theorem cnmv_scraper_never_raises_witness:
  "http_get demo_cnmv_session 2 (cnmv_url ''es'' ''A-1'' None) = Inl (HTTPError 503) \<and>
   get_cnmv_short_positions demo_cnmv_session 2 ''es'' ascii_lower decimal_float ''A-1'' None
     = Inr ([LogFetchError (cnmv_url ''es'' ''A-1'' None) (HTTPError 503)], None) \<and>
   http_get demo_cnmv_session 1 (cnmv_url ''es'' ''A-1'' None)
     = Inr \<lparr>status_code = 200, body = \<lparr>tables = [], headings = []\<rparr>\<rparr> \<and>
   get_cnmv_short_positions demo_cnmv_session 1 ''es'' ascii_lower decimal_float ''A-1'' None
     = Inr ([LogNoTable ''A-1''],
            Some \<lparr>nif = ''A-1'', issuer = [], block_url = cnmv_url ''es'' ''A-1'' None, rows = []\<rparr>)"
proof -
  have e1: "http_get demo_cnmv_session 2 (cnmv_url ''es'' ''A-1'' None) = Inl (HTTPError 503)"
    by code_simp
  have e2: "http_get demo_cnmv_session 1 (cnmv_url ''es'' ''A-1'' None)
     = Inr \<lparr>status_code = 200, body = \<lparr>tables = [], headings = []\<rparr>\<rparr>"
    by code_simp
  note T1 = cnmv_scraper_never_raises [where session = demo_cnmv_session and t = 2 and L = "''es''"
      and n = "''A-1''" and lang = None and lower = ascii_lower and pyfloat = decimal_float]
  note T2 = cnmv_scraper_never_raises [where session = demo_cnmv_session and t = 1 and L = "''es''"
      and n = "''A-1''" and lang = None and lower = ascii_lower and pyfloat = decimal_float]
  from T1 e1 have f: "get_cnmv_short_positions demo_cnmv_session 2 ''es'' ascii_lower decimal_float ''A-1'' None
     = Inr ([LogFetchError (cnmv_url ''es'' ''A-1'' None) (HTTPError 503)], None)"
    by blast
  from T2 e2 have g: "get_cnmv_short_positions demo_cnmv_session 1 ''es'' ascii_lower decimal_float ''A-1'' None
     = Inr ([LogNoTable ''A-1''],
            Some \<lparr>nif = ''A-1'', issuer = [], block_url = cnmv_url ''es'' ''A-1'' None, rows = []\<rparr>)"
    by simp
  from e1 e2 f g show ?thesis by blast
qed

section \<open>Composition of the report\<close>

text \<open>
  Claim C10. With no issuer block the markup builder returns the empty string, and the
  composed artifact is the news artifact itself, whether or not it contains the closing
  marker. So it is for a run whose scraper loop yields no block.
\<close>

theorem compose_without_blocks_identity:
  "build_html_cnmv fmt3f [] = [] \<and>
   compose_html html_news (build_html_cnmv fmt3f []) = html_news \<and>
   (cnmv_loop session L lower pyfloat t CNMV_NIFS [] = [] \<longrightarrow>
      final_html session L lower pyfloat fmt3f t CNMV_NIFS html_news = html_news)"
proof -
  have empty: "build_html_cnmv fmt3f [] = []"
    by (simp add: build_html_cnmv_def)
  have ident: "compose_html html_news [] = html_news"
    by (simp add: compose_html_def)
  have run: "final_html session L lower pyfloat fmt3f t CNMV_NIFS html_news = html_news"
    if "cnmv_loop session L lower pyfloat t CNMV_NIFS [] = []"
    unfolding final_html_def that empty by (rule ident)
  from empty ident run show ?thesis by simp
qed

theorem compose_without_blocks_identity_witness:
  "cnmv_loop demo_cnmv_session ''es'' ascii_lower decimal_float 2 [''A-1'', [], ''B-2''] [] = [] \<and>
   final_html demo_cnmv_session ''es'' ascii_lower decimal_float (\<lambda>x. ''0.000'') 2 [''A-1'', [], ''B-2'']
     ''<html><body>news</body></html>'' = ''<html><body>news</body></html>''"
proof -
  have e: "cnmv_loop demo_cnmv_session ''es'' ascii_lower decimal_float 2 [''A-1'', [], ''B-2''] [] = []"
    by code_simp
  from e compose_without_blocks_identity [where session = demo_cnmv_session and L = "''es''"
      and lower = ascii_lower and pyfloat = decimal_float and t = 2 and CNMV_NIFS = "[''A-1'', [], ''B-2'']"
      and fmt3f = "\<lambda>x. ''0.000''" and html_news = "''<html><body>news</body></html>''"]
  show ?thesis by blast
qed

lemma py_replace_absent:
  "old \<noteq> [] \<Longrightarrow> \<not> sublist old s \<Longrightarrow> py_replace old new s = s"
  by (induction s) (auto simp: sublist_Cons_right)

lemma py_replace_at_head:
  "old \<noteq> [] \<Longrightarrow> py_replace old new (old @ r) = new @ py_replace old new r"
  by (cases old) auto

lemma py_replace_skip:
  "old \<noteq> [] \<Longrightarrow> \<not> prefix old (c # s) \<Longrightarrow> py_replace old new (c # s) = c # py_replace old new s"
  by simp

lemma py_replace_first:
  "old \<noteq> [] \<Longrightarrow> \<not> sublist old (p @ butlast old) \<Longrightarrow>
   py_replace old new (p @ old @ r) = p @ new @ py_replace old new r"
proof (induction p)
  case Nil
  then show ?case by (simp add: py_replace_at_head)
next
  case (Cons c p)
  have np: "\<not> prefix old (c # p @ old @ r)"
  proof
    assume pre: "prefix old (c # p @ old @ r)"
    have "length old \<le> length ((c # p) @ butlast old)" by simp
    moreover have "prefix ((c # p) @ butlast old) (c # p @ old @ r)"
      by (simp add: prefix_def) (metis append_butlast_last_id Cons.prems(1) append_assoc append_Cons)
    ultimately have "prefix old ((c # p) @ butlast old)"
      using pre by (metis prefix_length_prefix)
    then have "sublist old ((c # p) @ butlast old)" by (rule prefix_imp_sublist)
    with Cons.prems show False by simp
  qed
  from Cons.prems have "\<not> sublist old (p @ butlast old)"
    by (auto simp: sublist_Cons_right)
  with Cons.IH Cons.prems(1) have "py_replace old new (p @ old @ r) = p @ new @ py_replace old new r"
    by simp
  with np Cons.prems(1) show ?case by simp
qed


lemma no_overlap:
  assumes unb: "\<forall>k. 0 < k \<and> k < length old \<longrightarrow> drop k old \<noteq> take (length old - k) old"
    and pre: "prefix old (p @ old @ r)" and p: "p \<noteq> []"
  shows "length old \<le> length p"
proof (rule ccontr)
  assume "\<not> length old \<le> length p"
  then have k: "0 < length p" "length p < length old" using p by simp_all
  from pre have "old = take (length old) (p @ old @ r)"
    by (metis append_eq_conv_conj prefix_def)
  then have "drop (length p) old = drop (length p) (take (length old) (p @ old @ r))" by simp
  also have "\<dots> = take (length old - length p) (drop (length p) (p @ old @ r))"
    by (simp only: drop_take)
  also have "drop (length p) (p @ old @ r) = old @ r" by simp
  also have "take (length old - length p) (old @ r) = take (length old - length p) old" by simp
  finally show False using unb k by blast
qed

lemma py_replace_last:
  assumes ne: "old \<noteq> []"
    and unb: "\<forall>k. 0 < k \<and> k < length old \<longrightarrow> drop k old \<noteq> take (length old - k) old"
    and r: "\<not> sublist old r"
  shows "\<exists>X. py_replace old new (p @ old @ r) = X @ new @ r"
proof (induction p rule: length_induct)
  case (1 p)
  show ?case
  proof (cases p)
    case Nil
    with ne r show ?thesis by (simp add: py_replace_at_head py_replace_absent)
  next
    case (Cons c p')
    show ?thesis
    proof (cases "prefix old (p @ old @ r)")
      case True
      from no_overlap [OF unb True] Cons have len: "length old \<le> length p" by simp
      from True Cons ne have "py_replace old new (p @ old @ r)
          = new @ py_replace old new (drop (length old) (p @ old @ r))" by simp
      also from len have "drop (length old) (p @ old @ r) = drop (length old) p @ old @ r" by simp
      finally have eq: "py_replace old new (p @ old @ r)
          = new @ py_replace old new (drop (length old) p @ old @ r)" .
      from ne Cons have "length (drop (length old) p) < length p" by (cases old) simp_all
      with 1 obtain X where "py_replace old new (drop (length old) p @ old @ r) = X @ new @ r"
        by blast
      with eq have "py_replace old new (p @ old @ r) = (new @ X) @ new @ r" by simp
      then show ?thesis by blast
    next
      case False
      with Cons ne have eq: "py_replace old new (p @ old @ r) = c # py_replace old new (p' @ old @ r)"
        by simp
      from Cons have "length p' < length p" by simp
      with 1 obtain X where "py_replace old new (p' @ old @ r) = X @ new @ r" by blast
      with eq have "py_replace old new (p @ old @ r) = (c # X) @ new @ r" by simp
      then show ?thesis by blast
    qed
  qed
qed

lemma marker_unbordered:
  "\<forall>k. 0 < k \<and> k < length MARKER \<longrightarrow> drop k MARKER \<noteq> take (length MARKER - k) MARKER"
proof -
  have "\<forall>k\<in>set [1..<14]. drop k MARKER \<noteq> take (14 - k) MARKER"
    by code_simp
  moreover have "length MARKER = 14" by (simp add: MARKER_def)
  ultimately show ?thesis by auto
qed

text \<open>
  Claim C7. Let the issuer markup be non-empty. If the closing marker does not occur in the
  news artifact, the report is the artifact followed by the markup. If it occurs, the
  report ends with the markup, a newline, the closing marker and whatever followed the last
  marker in the artifact: the section sits right before the closing tag. When the marker
  occurs once, everything before it is kept as it is. (\<^verbatim>\<open>str.replace\<close> treats every
  occurrence of the marker alike.)
\<close>

theorem compose_issuer_section:
  assumes "cnmv_html \<noteq> []"
  shows "(\<not> sublist MARKER html_news \<longrightarrow> compose_html html_news cnmv_html = html_news @ cnmv_html) \<and>
     (\<forall>p r. html_news = p @ MARKER @ r \<and> \<not> sublist MARKER r \<longrightarrow>
        (\<exists>X. compose_html html_news cnmv_html = X @ cnmv_html @ newline @ MARKER @ r)) \<and>
     (\<forall>p r. html_news = p @ MARKER @ r \<and> \<not> sublist MARKER (p @ butlast MARKER) \<and> \<not> sublist MARKER r \<longrightarrow>
        compose_html html_news cnmv_html = p @ cnmv_html @ newline @ MARKER @ r)"
proof -
  have ne: "MARKER \<noteq> []" by (simp add: MARKER_def)
  have absent: "compose_html html_news cnmv_html = html_news @ cnmv_html"
    if "\<not> sublist MARKER html_news"
    using that by (simp add: compose_html_def)
  have present: "compose_html (p @ MARKER @ r) cnmv_html
      = py_replace MARKER (cnmv_html @ newline @ MARKER) (p @ MARKER @ r)" for p r
    using assms by (simp add: compose_html_def sublist_appendI)
  have closing: "\<exists>X. compose_html html_news cnmv_html = X @ cnmv_html @ newline @ MARKER @ r"
    if "html_news = p @ MARKER @ r" "\<not> sublist MARKER r" for p r
    using py_replace_last [OF ne marker_unbordered that(2), of "cnmv_html @ newline @ MARKER" p]
    unfolding that(1) present by simp
  have once: "compose_html html_news cnmv_html = p @ cnmv_html @ newline @ MARKER @ r"
    if "html_news = p @ MARKER @ r" "\<not> sublist MARKER (p @ butlast MARKER)" "\<not> sublist MARKER r" for p r
    unfolding that(1) present
    using py_replace_first [OF ne that(2)] py_replace_absent [OF ne that(3)] by simp
  from absent closing once show ?thesis by blast
qed


theorem compose_issuer_section_witness:
  "''<hr>'' \<noteq> [] \<and>
   \<not> sublist MARKER ''<p>news</p>'' \<and>
   compose_html ''<p>news</p>'' ''<hr>'' = ''<p>news</p>'' @ ''<hr>'' \<and>
   ''<html><body>news</body></html>'' = ''<html><body>news'' @ MARKER @ [] \<and>
   \<not> sublist MARKER (''<html><body>news'' @ butlast MARKER) \<and>
   \<not> sublist MARKER [] \<and>
   compose_html ''<html><body>news</body></html>'' ''<hr>''
     = ''<html><body>news'' @ ''<hr>'' @ newline @ MARKER @ []"
proof -
  have h1: "''<hr>'' \<noteq> []" by simp
  have h2: "\<not> sublist MARKER ''<p>news</p>''" by code_simp
  have h3: "''<html><body>news</body></html>'' = ''<html><body>news'' @ MARKER @ []"
    by (simp add: MARKER_def)
  have h4: "\<not> sublist MARKER (''<html><body>news'' @ butlast MARKER)" by code_simp
  have h5: "\<not> sublist MARKER []" by (simp add: MARKER_def)
  note T1 = compose_issuer_section [OF h1, of "''<p>news</p>''"]
  note T2 = compose_issuer_section [OF h1, of "''<html><body>news</body></html>''"]
  from T1 h2 have c1: "compose_html ''<p>news</p>'' ''<hr>'' = ''<p>news</p>'' @ ''<hr>''"
    by blast
  from T2 h3 h4 h5 have c2: "compose_html ''<html><body>news</body></html>'' ''<hr>''
     = ''<html><body>news'' @ ''<hr>'' @ newline @ MARKER @ []"
    by blast
  from h1 h2 h3 h4 h5 c1 c2 show ?thesis by blast
qed

section \<open>The adaptive prefilter\<close>

lemma rel_threshold: "nat \<lfloor>of_nat n * THRESH_REL\<rfloor> = n div 5"
proof -
  have "(of_nat n :: rat) * THRESH_REL = of_nat n / of_nat 5"
    by (simp add: THRESH_REL_def)
  then have "\<lfloor>of_nat n * THRESH_REL\<rfloor> = int (n div 5)"
    by (simp only: floor_divide_of_nat_eq)
  then show ?thesis by simp
qed

lemma double_threshold:
  assumes "n < 2 ^ 54"
  shows "nat \<lfloor>of_nat n * DOUBLE_THRESH_REL\<rfloor> = nat \<lfloor>of_nat n * THRESH_REL\<rfloor>"
proof -
  have p: "(2::nat) ^ 54 = 18014398509481984" by simp
  have "(of_nat n :: rat) * DOUBLE_THRESH_REL = of_nat (n * 3602879701896397) / of_nat 18014398509481984"
    by (simp add: DOUBLE_THRESH_REL_def)
  then have "\<lfloor>of_nat n * DOUBLE_THRESH_REL\<rfloor> = int ((n * 3602879701896397) div 18014398509481984)"
    by (simp only: floor_divide_of_nat_eq)
  moreover have "(n * 3602879701896397) div 18014398509481984 = n div 5"
  proof -
    define q r where "q = n div 5" and "r = n mod 5"
    have n: "n = 5 * q + r" and r: "r < 5" by (simp_all add: q_def r_def)
    from assms p have b: "n < 18014398509481984" by simp
    have "18014398509481984 * q \<le> n * 3602879701896397"
      unfolding n by (simp add: add_mult_distrib)
    moreover have "n * 3602879701896397 < 18014398509481984 * Suc q"
      using r b unfolding n by (simp add: add_mult_distrib)
    ultimately have "(n * 3602879701896397) div 18014398509481984 = q"
      by (rule div_nat_eqI)
    then show ?thesis by (simp add: q_def)
  qed
  moreover have "(of_nat n :: rat) * THRESH_REL = of_nat n / of_nat 5"
    by (simp add: THRESH_REL_def)
  then have "\<lfloor>of_nat n * THRESH_REL\<rfloor> = int (n div 5)"
    by (simp only: floor_divide_of_nat_eq)
  ultimately show ?thesis by simp
qed

lemma use_prefilter_iff: "use_prefilter n_pre before \<longleftrightarrow> max 50 (before div 5) \<le> n_pre"
  by (simp add: use_prefilter_def rel_threshold THRESH_ABS_def)

lemma prefilter_stage_eq:
  "ks \<noteq> [] \<Longrightarrow>
   prefilter_stage nrm (Some ks) items =
     (if max 50 (length items div 5) \<le> length (filter (matches_listing nrm ks) items)
      then filter (matches_listing nrm ks) items else items)"
  by (simp add: prefilter_stage_def Let_def use_prefilter_iff)

text \<open>
  Claim C2, as amended. For a non-empty keyword list and a listing of \<open>N\<close> items, the
  listing is replaced by its matching items iff their number is at least
  \<open>max 50 (N div 5)\<close>, that is, 20% of \<open>N\<close> rounded down to a whole number; otherwise the
  full listing goes on. With 1000 items, 60 matches leave the listing as it is and 250
  matches replace it.
\<close>

theorem prefilter_threshold:
  assumes "ks \<noteq> []"
  shows "prefilter_stage nrm (Some ks) items =
       (if max 50 (length items div 5) \<le> length (filter (matches_listing nrm ks) items)
        then filter (matches_listing nrm ks) items else items) \<and>
     (length items = 1000 \<and> length (filter (matches_listing nrm ks) items) = 60 \<longrightarrow>
        prefilter_stage nrm (Some ks) items = items) \<and>
     (length items = 1000 \<and> length (filter (matches_listing nrm ks) items) = 250 \<longrightarrow>
        prefilter_stage nrm (Some ks) items = filter (matches_listing nrm ks) items)"
proof -
  note eq = prefilter_stage_eq [OF assms, of nrm items]
  have discarded: "prefilter_stage nrm (Some ks) items = items"
    if "length items = 1000" "length (filter (matches_listing nrm ks) items) = 60"
  proof -
    from that have "\<not> max 50 (length items div 5) \<le> length (filter (matches_listing nrm ks) items)"
      by simp
    then show ?thesis unfolding eq by (simp only: if_False)
  qed
  have applied: "prefilter_stage nrm (Some ks) items = filter (matches_listing nrm ks) items"
    if "length items = 1000" "length (filter (matches_listing nrm ks) items) = 250"
  proof -
    from that have "max 50 (length items div 5) \<le> length (filter (matches_listing nrm ks) items)"
      by simp
    then show ?thesis unfolding eq by (simp only: if_True)
  qed
  from eq discarded applied show ?thesis by blast
qed

lemma demo_match:
  "matches_listing demo_nrm [''gas''] demo_hit" "\<not> matches_listing demo_nrm [''gas''] demo_miss"
  by code_simp+

theorem prefilter_threshold_witness:
  "[''gas''] \<noteq> [] \<and>
   length (replicate 60 demo_hit @ replicate 940 demo_miss) = 1000 \<and>
   length (filter (matches_listing demo_nrm [''gas'']) (replicate 60 demo_hit @ replicate 940 demo_miss)) = 60 \<and>
   prefilter_stage demo_nrm (Some [''gas'']) (replicate 60 demo_hit @ replicate 940 demo_miss)
     = replicate 60 demo_hit @ replicate 940 demo_miss \<and>
   length (replicate 250 demo_hit @ replicate 750 demo_miss) = 1000 \<and>
   length (filter (matches_listing demo_nrm [''gas'']) (replicate 250 demo_hit @ replicate 750 demo_miss)) = 250 \<and>
   prefilter_stage demo_nrm (Some [''gas'']) (replicate 250 demo_hit @ replicate 750 demo_miss)
     = replicate 250 demo_hit"
proof -
  have ne: "[''gas''] \<noteq> []" by simp
  have f60: "filter (matches_listing demo_nrm [''gas'']) (replicate 60 demo_hit @ replicate 940 demo_miss)
      = replicate 60 demo_hit"
    by (simp add: filter_replicate demo_match)
  have f250: "filter (matches_listing demo_nrm [''gas'']) (replicate 250 demo_hit @ replicate 750 demo_miss)
      = replicate 250 demo_hit"
    by (simp add: filter_replicate demo_match)
  note T60 = prefilter_threshold [OF ne, of demo_nrm "replicate 60 demo_hit @ replicate 940 demo_miss"]
  note T250 = prefilter_threshold [OF ne, of demo_nrm "replicate 250 demo_hit @ replicate 750 demo_miss"]
  have l60: "length (replicate 60 demo_hit @ replicate 940 demo_miss) = 1000" by simp
  have l250: "length (replicate 250 demo_hit @ replicate 750 demo_miss) = 1000" by simp
  from T60 [unfolded f60 l60] have r60: "prefilter_stage demo_nrm (Some [''gas'']) (replicate 60 demo_hit @ replicate 940 demo_miss)
     = replicate 60 demo_hit @ replicate 940 demo_miss"
    by simp
  from T250 [unfolded f250 l250] have r250: "prefilter_stage demo_nrm (Some [''gas'']) (replicate 250 demo_hit @ replicate 750 demo_miss)
     = replicate 250 demo_hit"
    by simp
  have c60: "length (filter (matches_listing demo_nrm [''gas'']) (replicate 60 demo_hit @ replicate 940 demo_miss)) = 60"
    unfolding f60 by simp
  have c250: "length (filter (matches_listing demo_nrm [''gas'']) (replicate 250 demo_hit @ replicate 750 demo_miss)) = 250"
    unfolding f250 by simp
  from ne l60 l250 c60 c250 r60 r250 show ?thesis by blast
qed

text \<open>
  With 251 items of which 50 match, the prefilter is applied, though 50 is below 20% of
  251, which is 50.2.
\<close>

theorem prefilter_truncation_counterexample:
  "length (replicate 50 demo_hit @ replicate 201 demo_miss) = 251 \<and>
   length (filter (matches_listing demo_nrm [''gas'']) (replicate 50 demo_hit @ replicate 201 demo_miss)) = 50 \<and>
   prefilter_stage demo_nrm (Some [''gas'']) (replicate 50 demo_hit @ replicate 201 demo_miss)
     = replicate 50 demo_hit \<and>
   replicate 50 demo_hit \<noteq> replicate 50 demo_hit @ replicate 201 demo_miss \<and>
   \<not> (max 50 (20 / 100 * 251) \<le> (50 :: rat))"
proof -
  have f: "filter (matches_listing demo_nrm [''gas'']) (replicate 50 demo_hit @ replicate 201 demo_miss)
      = replicate 50 demo_hit"
    by (simp add: filter_replicate demo_match)
  have l: "length (replicate 50 demo_hit @ replicate 201 demo_miss) = 251" by simp
  have fl: "length (filter (matches_listing demo_nrm [''gas'']) (replicate 50 demo_hit @ replicate 201 demo_miss)) = 50"
    unfolding f by simp
  have ne: "[''gas''] \<noteq> []" by simp
  have p: "prefilter_stage demo_nrm (Some [''gas'']) (replicate 50 demo_hit @ replicate 201 demo_miss)
     = replicate 50 demo_hit"
    unfolding prefilter_stage_eq [OF ne] f l by simp
  have n: "replicate 50 demo_hit \<noteq> replicate 50 demo_hit @ replicate 201 demo_miss"
    by simp
  have r: "\<not> (max 50 (20 / 100 * 251) \<le> (50 :: rat))" by simp
  from l fl p n r show ?thesis by blast
qed

section \<open>The author of an article\<close>

lemma pick_name_has_name: "has_name d s \<Longrightarrow> pick_name (JObj d) = JStr s"
  by (simp add: has_name_def dict_get_def py_or_def)

lemma named_objects:
  "list_all2 has_name ds ns \<Longrightarrow> filter truthy (map pick_name (map JObj ds)) = map JStr ns"
proof (induction rule: list_all2_induct)
  case Nil
  then show ?case by simp
next
  case (Cons d ds s ns)
  from Cons.hyps(1) have pn: "pick_name (JObj d) = JStr s" by (rule pick_name_has_name)
  from Cons.hyps(1) have ne: "s \<noteq> []" by (simp add: has_name_def)
  have "filter truthy (map pick_name (map JObj (d # ds)))
      = filter truthy [JStr s] @ filter truthy (map pick_name (map JObj ds))"
    unfolding list.map pn by simp
  also have "filter truthy [JStr s] = [JStr s]" using ne by simp
  finally show ?case using Cons.IH by simp
qed

lemma picked_strings:
  "list_all2 (\<lambda>x s. pick_name x = JStr s) xs ss \<Longrightarrow>
   filter truthy (map pick_name xs) = map JStr (filter (\<lambda>s. s \<noteq> []) ss)"
proof (induction rule: list_all2_induct)
  case Nil
  then show ?case by simp
next
  case (Cons x xs s ss)
  have "filter truthy (map pick_name (x # xs))
      = filter truthy [JStr s] @ filter truthy (map pick_name xs)"
    unfolding list.map Cons.hyps(1) by simp
  with Cons.IH show ?case by simp
qed

lemma str_items_strings: "str_items (map JStr ns) = Inr ns"
  by (induction ns) auto

lemma py_strip_jane: "py_strip ''Jane Doe'' = ''Jane Doe''"
  by code_simp

text \<open>
  A list with an element whose name is a number: \<^verbatim>\<open>", ".join\<close> raises \<^verbatim>\<open>TypeError\<close>,
  and so does the extraction.
\<close>

lemma author_list_type_error:
  "structured_author (JList [JObj [(''name'', JNum 5)]]) = Inl TypeError"
  by (simp add: structured_author_def dict_get_def py_or_def)

text \<open>
  Claim C4, as amended. An author object yields its name when it has a non-empty one
  (whatever is under \<^verbatim>\<open>name\<close>, when that is truthy), otherwise what is under \<^verbatim>\<open>@id\<close>
  when that is truthy, otherwise the empty string. A string yields itself. A list of
  objects with non-empty names yields the names joined by a comma and a space; more
  generally, a list whose elements all pick a string yields the non-empty ones joined. Null,
  a boolean or a number yields the empty string. When the page is fetched, the metadata
  has no author entry and the first \<^verbatim>\<open>meta\<close> element with \<^verbatim>\<open>name="author"\<close> in the
  document has the content \<^verbatim>\<open>Jane Doe\<close>, the extracted record has that author.
\<close>

theorem author_normalisation:
  "(has_name d s \<longrightarrow> structured_author (JObj d) = Inr (JStr s)) \<and>
   (truthy (dict_get d ''name'') \<longrightarrow> structured_author (JObj d) = Inr (dict_get d ''name'')) \<and>
   (\<not> truthy (dict_get d ''name'') \<and> truthy (dict_get d ''@id'') \<longrightarrow>
      structured_author (JObj d) = Inr (dict_get d ''@id'')) \<and>
   (\<not> truthy (dict_get d ''name'') \<and> \<not> truthy (dict_get d ''@id'') \<longrightarrow>
      structured_author (JObj d) = Inr (JStr [])) \<and>
   structured_author (JStr a) = Inr (JStr a) \<and>
   (list_all2 has_name ds ns \<longrightarrow>
      structured_author (JList (map JObj ds)) = Inr (JStr (join '', '' ns))) \<and>
   (list_all2 (\<lambda>x s. pick_name x = JStr s) xs ss \<longrightarrow>
      structured_author (JList xs) = Inr (JStr (join '', '' (filter (\<lambda>s. s \<noteq> []) ss)))) \<and>
   structured_author JNull = Inr (JStr []) \<and>
   structured_author (JBool b) = Inr (JStr []) \<and>
   structured_author (JNum x) = Inr (JStr []) \<and>
   (\<forall>res tg. http_get session t u = Inr res \<and>
        map_of (case jsonld (body res) of None \<Rightarrow> [] | Some m \<Rightarrow> m) ''author'' = None \<and>
        soup_find (tags (body res)) (''meta'', [(''name'', ''author'')]) = Some tg \<and>
        map_of (attrs tg) ''content'' = Some ''Jane Doe'' \<longrightarrow>
      (\<exists>art. extract_article session t dateparse isoformat u tzname = Inr art \<and>
             author art = JStr ''Jane Doe''))"
proof -
  have single: "structured_author (JObj d) = Inr (JStr s)" if "has_name d s"
    using pick_name_has_name [OF that] by (simp add: structured_author_def del: pick_name.simps)
  have obj: "structured_author (JObj d) = Inr (dict_get d ''name'')" if "truthy (dict_get d ''name'')"
    using that by (simp add: structured_author_def py_or_def)
  have ident: "structured_author (JObj d) = Inr (dict_get d ''@id'')"
    if "\<not> truthy (dict_get d ''name'') \<and> truthy (dict_get d ''@id'')"
    using that by (simp add: structured_author_def py_or_def)
  have none: "structured_author (JObj d) = Inr (JStr [])"
    if "\<not> truthy (dict_get d ''name'') \<and> \<not> truthy (dict_get d ''@id'')"
    using that by (simp add: structured_author_def py_or_def)
  have many: "structured_author (JList (map JObj ds)) = Inr (JStr (join '', '' ns))"
    if "list_all2 has_name ds ns"
    using named_objects [OF that] by (simp add: structured_author_def str_items_strings)
  have mixed: "structured_author (JList xs) = Inr (JStr (join '', '' (filter (\<lambda>s. s \<noteq> []) ss)))"
    if "list_all2 (\<lambda>x s. pick_name x = JStr s) xs ss"
    using picked_strings [OF that] by (simp add: structured_author_def str_items_strings)
  have other: "structured_author JNull = Inr (JStr [])" "structured_author (JBool b) = Inr (JStr [])"
    "structured_author (JNum x) = Inr (JStr [])" "structured_author (JStr a) = Inr (JStr a)"
    by (simp_all add: structured_author_def)
  have e2e: "\<exists>art. extract_article session t dateparse isoformat u tzname = Inr art \<and>
             author art = JStr ''Jane Doe''"
    if g: "http_get session t u = Inr res"
      and na: "map_of (case jsonld (body res) of None \<Rightarrow> [] | Some m \<Rightarrow> m) ''author'' = None"
      and tg: "soup_find (tags (body res)) (''meta'', [(''name'', ''author'')]) = Some tg"
      and c: "map_of (attrs tg) ''content'' = Some ''Jane Doe''"
    for res tg
  proof -
    from na have sa: "structured_author (dict_get (case jsonld (body res) of None \<Rightarrow> [] | Some m \<Rightarrow> m) ''author'')
        = Inr (JStr [])"
      by (simp add: dict_get_def structured_author_def)
    from tg c have ha: "html_author (body res) = ''Jane Doe''"
      by (simp add: html_author_def author_selectors_def py_strip_jane)
    from g sa ha show ?thesis
      by (simp add: extract_article_def Let_def py_or_def)
  qed
  from single obj ident none many mixed other e2e show ?thesis by blast
qed

theorem author_normalisation_witness:
  "has_name [(''@type'', JStr ''Person''), (''name'', JStr ''Ann'')] ''Ann'' \<and>
   truthy (dict_get [(''@type'', JStr ''Person''), (''name'', JStr ''Ann'')] ''name'') \<and>
   structured_author (JObj [(''@type'', JStr ''Person''), (''name'', JStr ''Ann'')]) = Inr (JStr ''Ann'') \<and>
   \<not> truthy (dict_get [(''name'', JStr []), (''@id'', JStr ''http://x/#ann'')] ''name'') \<and>
   truthy (dict_get [(''name'', JStr []), (''@id'', JStr ''http://x/#ann'')] ''@id'') \<and>
   structured_author (JObj [(''name'', JStr []), (''@id'', JStr ''http://x/#ann'')])
     = Inr (JStr ''http://x/#ann'') \<and>
   \<not> truthy (dict_get [(''@type'', JStr ''Person'')] ''name'') \<and>
   \<not> truthy (dict_get [(''@type'', JStr ''Person'')] ''@id'') \<and>
   structured_author (JObj [(''@type'', JStr ''Person'')]) = Inr (JStr []) \<and>
   list_all2 has_name [[(''name'', JStr ''Ann'')], [(''name'', JStr ''Bob'')]] [''Ann'', ''Bob''] \<and>
   structured_author (JList (map JObj [[(''name'', JStr ''Ann'')], [(''name'', JStr ''Bob'')]]))
     = Inr (JStr ''Ann, Bob'') \<and>
   list_all2 (\<lambda>x s. pick_name x = JStr s)
     [JObj [(''name'', JStr ''Ann'')], JNum 7, JStr ''Bob''] [''Ann'', [], ''Bob''] \<and>
   structured_author (JList [JObj [(''name'', JStr ''Ann'')], JNum 7, JStr ''Bob''])
     = Inr (JStr ''Ann, Bob'') \<and>
   http_get demo_article_session 0 ''http://x/gas.html''
     = Inr \<lparr>status_code = 200, body = demo_article_page\<rparr> \<and>
   map_of (case jsonld demo_article_page of None \<Rightarrow> [] | Some m \<Rightarrow> m) ''author'' = None \<and>
   soup_find (tags demo_article_page) (''meta'', [(''name'', ''author'')])
     = Some \<lparr>tag_name = ''meta'', attrs = [(''name'', ''author''), (''content'', ''Jane Doe'')], tag_text = []\<rparr> \<and>
   (case extract_article demo_article_session 0 demo_dateparse id ''http://x/gas.html'' ''Europe/Madrid'' of
      Inl e \<Rightarrow> False | Inr art \<Rightarrow> author art = JStr ''Jane Doe'')"
proof -
  have h1: "has_name [(''@type'', JStr ''Person''), (''name'', JStr ''Ann'')] ''Ann''"
    by (simp add: has_name_def)
  have h1': "truthy (dict_get [(''@type'', JStr ''Person''), (''name'', JStr ''Ann'')] ''name'')"
    by (simp add: dict_get_def)
  have i1: "\<not> truthy (dict_get [(''name'', JStr []), (''@id'', JStr ''http://x/#ann'')] ''name'')"
    and i2: "truthy (dict_get [(''name'', JStr []), (''@id'', JStr ''http://x/#ann'')] ''@id'')"
    by (simp_all add: dict_get_def)
  have n1: "\<not> truthy (dict_get [(''@type'', JStr ''Person'')] ''name'')"
    and n2: "\<not> truthy (dict_get [(''@type'', JStr ''Person'')] ''@id'')"
    by (simp_all add: dict_get_def)
  have h2: "list_all2 has_name [[(''name'', JStr ''Ann'')], [(''name'', JStr ''Bob'')]] [''Ann'', ''Bob'']"
    by (simp add: has_name_def)
  have m2: "list_all2 (\<lambda>x s. pick_name x = JStr s)
     [JObj [(''name'', JStr ''Ann'')], JNum 7, JStr ''Bob''] [''Ann'', [], ''Bob'']"
    by (simp add: dict_get_def py_or_def)
  have h3: "http_get demo_article_session 0 ''http://x/gas.html''
     = Inr \<lparr>status_code = 200, body = demo_article_page\<rparr>"
    by (simp add: http_get_def demo_article_session_def)
  have h4: "map_of (case jsonld demo_article_page of None \<Rightarrow> [] | Some m \<Rightarrow> m) ''author'' = None"
    by (simp add: demo_article_page_def)
  have h5: "soup_find (tags demo_article_page) (''meta'', [(''name'', ''author'')])
     = Some \<lparr>tag_name = ''meta'', attrs = [(''name'', ''author''), (''content'', ''Jane Doe'')], tag_text = []\<rparr>"
    by (simp add: soup_find_def demo_article_page_def)
  note T = author_normalisation [where d = "[(''@type'', JStr ''Person''), (''name'', JStr ''Ann'')]"
      and s = "''Ann''" and ds = "[[(''name'', JStr ''Ann'')], [(''name'', JStr ''Bob'')]]"
      and ns = "[''Ann'', ''Bob'']"
      and xs = "[JObj [(''name'', JStr ''Ann'')], JNum 7, JStr ''Bob'']" and ss = "[''Ann'', [], ''Bob'']"
      and session = demo_article_session and t = 0
      and u = "''http://x/gas.html''" and dateparse = demo_dateparse and isoformat = id
      and tzname = "''Europe/Madrid''"]
  note TI = author_normalisation [where d = "[(''name'', JStr []), (''@id'', JStr ''http://x/#ann'')]"]
  note TN = author_normalisation [where d = "[(''@type'', JStr ''Person'')]"]
  from T h1 have c1: "structured_author (JObj [(''@type'', JStr ''Person''), (''name'', JStr ''Ann'')]) = Inr (JStr ''Ann'')"
    by blast
  from TI i1 i2 have "structured_author (JObj [(''name'', JStr []), (''@id'', JStr ''http://x/#ann'')])
     = Inr (dict_get [(''name'', JStr []), (''@id'', JStr ''http://x/#ann'')] ''@id'')"
    by blast
  then have ci: "structured_author (JObj [(''name'', JStr []), (''@id'', JStr ''http://x/#ann'')])
     = Inr (JStr ''http://x/#ann'')"
    by (simp add: dict_get_def)
  from TN n1 n2 have cn: "structured_author (JObj [(''@type'', JStr ''Person'')]) = Inr (JStr [])"
    by blast
  from T h2 have "structured_author (JList (map JObj [[(''name'', JStr ''Ann'')], [(''name'', JStr ''Bob'')]]))
     = Inr (JStr (join '', '' [''Ann'', ''Bob'']))"
    by blast
  then have c2: "structured_author (JList (map JObj [[(''name'', JStr ''Ann'')], [(''name'', JStr ''Bob'')]]))
     = Inr (JStr ''Ann, Bob'')"
    by simp
  from T m2 have "structured_author (JList [JObj [(''name'', JStr ''Ann'')], JNum 7, JStr ''Bob''])
     = Inr (JStr (join '', '' (filter (\<lambda>s. s \<noteq> []) [''Ann'', [], ''Bob''])))"
    by blast
  then have cm: "structured_author (JList [JObj [(''name'', JStr ''Ann'')], JNum 7, JStr ''Bob''])
     = Inr (JStr ''Ann, Bob'')"
    by simp
  from T h3 h4 h5 have "\<exists>art. extract_article demo_article_session 0 demo_dateparse id ''http://x/gas.html'' ''Europe/Madrid'' = Inr art \<and>
             author art = JStr ''Jane Doe''"
    by simp
  then have c3: "case extract_article demo_article_session 0 demo_dateparse id ''http://x/gas.html'' ''Europe/Madrid'' of
      Inl e \<Rightarrow> False | Inr art \<Rightarrow> author art = JStr ''Jane Doe''"
    by auto
  from h1 h1' i1 i2 n1 n2 h2 m2 h3 h4 h5 c1 ci cn c2 cm c3 show ?thesis by blast
qed

text \<open>
  An author object with only an \<^verbatim>\<open>@id\<close> yields that identifier, neither a name nor the
  empty string. On a page whose metadata has no author and whose first
  \<^verbatim>\<open><meta name="author">\<close> has an empty content, a second one with the content
  \<^verbatim>\<open>Jane Doe\<close> is not read: the record has the empty author.
\<close>

theorem author_shape_counterexample:
  "structured_author (JObj [(''@id'', JStr ''http://x/#ann'')]) = Inr (JStr ''http://x/#ann'') \<and>
   jsonld demo_two_authors_page
     = Some [(''@type'', JStr ''NewsArticle''), (''headline'', JStr ''Gas news''),
             (''datePublished'', JStr ''2024-03-05T10:00:00+01:00'')] \<and>
   tags demo_two_authors_page
     = [\<lparr>tag_name = ''meta'', attrs = [(''name'', ''author''), (''content'', [])], tag_text = []\<rparr>,
        \<lparr>tag_name = ''meta'', attrs = [(''name'', ''author''), (''content'', ''Jane Doe'')], tag_text = []\<rparr>] \<and>
   extract_article demo_two_authors_session 0 demo_dateparse id ''http://x/gas.html'' ''Europe/Madrid''
     = Inr \<lparr>art_url = ''http://x/gas.html'', art_title = JStr ''Gas news'', author = JStr [],
             published = Some ''2024-03-05T10:00:00+01:00'', content = JStr ''Body text'',
             art_source = None\<rparr>"
proof -
  have a: "structured_author (JObj [(''@id'', JStr ''http://x/#ann'')]) = Inr (JStr ''http://x/#ann'')"
    by (simp add: structured_author_def dict_get_def py_or_def)
  have d: "jsonld demo_two_authors_page
     = Some [(''@type'', JStr ''NewsArticle''), (''headline'', JStr ''Gas news''),
             (''datePublished'', JStr ''2024-03-05T10:00:00+01:00'')]"
    by (simp add: demo_two_authors_page_def)
  have e: "tags demo_two_authors_page
     = [\<lparr>tag_name = ''meta'', attrs = [(''name'', ''author''), (''content'', [])], tag_text = []\<rparr>,
        \<lparr>tag_name = ''meta'', attrs = [(''name'', ''author''), (''content'', ''Jane Doe'')], tag_text = []\<rparr>]"
    by (simp add: demo_two_authors_page_def)
  have f: "extract_article demo_two_authors_session 0 demo_dateparse id ''http://x/gas.html'' ''Europe/Madrid''
     = Inr \<lparr>art_url = ''http://x/gas.html'', art_title = JStr ''Gas news'', author = JStr [],
             published = Some ''2024-03-05T10:00:00+01:00'', content = JStr ''Body text'',
             art_source = None\<rparr>"
    by code_simp
  from a d e f show ?thesis by simp
qed

section \<open>The seen set in the extraction loop\<close>

lemma main_loop_step:
  "\<not> kw_active kw_list \<Longrightarrow> url item \<notin> st_seen st \<Longrightarrow>
   main_loop extract recent nrm kw_list t (item # rest) st =
     (case extract t (url item) of
        Inl e \<Rightarrow> main_loop extract recent nrm kw_list (Suc t) rest
                   (st\<lparr>st_events := st_events st @ [Attempted (url item)]\<rparr>)
      | Inr art \<Rightarrow>
          if published art = None \<or> published art = Some [] \<or> \<not> recent t (published art)
          then main_loop extract recent nrm kw_list (Suc t) rest
                 (st\<lparr>st_events := st_events st @ [Attempted (url item)]\<rparr>)
          else if sliceable (art_title art)
          then main_loop extract recent nrm kw_list (Suc t) rest
                 (st\<lparr>st_events := st_events st @ [Attempted (url item)],
                     st_collected := st_collected st @
                       [art\<lparr>art_source := Some (case source item of None \<Rightarrow> ''?'' | Some n \<Rightarrow> n)\<rparr>],
                     st_seen := insert (url item) (st_seen st)\<rparr>)
          else (st\<lparr>st_events := st_events st @ [Attempted (url item)],
                   st_collected := st_collected st @
                     [art\<lparr>art_source := Some (case source item of None \<Rightarrow> ''?'' | Some n \<Rightarrow> n)\<rparr>],
                   st_seen := insert (url item) (st_seen st)\<rparr>, Some TypeError))"
  by (simp add: Let_def keyword_check_def split: sum.splits)

lemma main_loop_no_skip:
  assumes nk: "\<not> kw_active kw_list"
  shows "distinct (map url items) \<Longrightarrow> \<forall>it\<in>set items. url it \<notin> st_seen st \<Longrightarrow>
     main_loop extract recent nrm kw_list t items st = (st', err) \<Longrightarrow>
     (\<exists>k \<le> length items. st_events st' = st_events st @ map (Attempted \<circ> url) (take k items) \<and>
        (err = None \<longrightarrow> k = length items))"
proof (induction items arbitrary: t st)
  case Nil
  then show ?case by auto
next
  case (Cons item rest)
  let ?u = "url item"
  let ?st1 = "st\<lparr>st_events := st_events st @ [Attempted ?u]\<rparr>"
  from Cons.prems(2) have fresh: "?u \<notin> st_seen st" by simp
  from Cons.prems(1) have d: "distinct (map url rest)" by simp
  from Cons.prems(1) have nr: "\<forall>it\<in>set rest. url it \<noteq> ?u" by (force simp: image_iff)
  from Cons.prems(2) have dis: "\<forall>it\<in>set rest. url it \<notin> st_seen st" by simp
  note stp = main_loop_step [OF nk fresh, of "extract" recent nrm t rest]
  have step: "\<exists>k \<le> length (item # rest).
        st_events st' = st_events st @ map (Attempted \<circ> url) (take k (item # rest)) \<and>
        (err = None \<longrightarrow> k = length (item # rest))"
    if r: "main_loop extract recent nrm kw_list (Suc t) rest s1 = (st', err)"
      and ev: "st_events s1 = st_events st @ [Attempted ?u]"
      and sn: "st_seen s1 \<subseteq> insert ?u (st_seen st)" for s1
  proof -
    from sn nr dis have "\<forall>it\<in>set rest. url it \<notin> st_seen s1" by auto
    from Cons.IH [OF d this r] obtain k where k: "k \<le> length rest"
      "st_events st' = st_events s1 @ map (Attempted \<circ> url) (take k rest)"
      "err = None \<longrightarrow> k = length rest" by blast
    with ev have "Suc k \<le> length (item # rest) \<and>
        st_events st' = st_events st @ map (Attempted \<circ> url) (take (Suc k) (item # rest)) \<and>
        (err = None \<longrightarrow> Suc k = length (item # rest))" by simp
    then show ?thesis by blast
  qed
  have stop: "\<exists>k \<le> length (item # rest).
        st_events st' = st_events st @ map (Attempted \<circ> url) (take k (item # rest)) \<and>
        (err = None \<longrightarrow> k = length (item # rest))"
    if "st_events st' = st_events st @ [Attempted ?u]" "err \<noteq> None"
  proof -
    from that have "Suc 0 \<le> length (item # rest) \<and>
        st_events st' = st_events st @ map (Attempted \<circ> url) (take (Suc 0) (item # rest)) \<and>
        (err = None \<longrightarrow> Suc 0 = length (item # rest))" by auto
    then show ?thesis by blast
  qed
  show ?case
  proof (cases "extract t ?u")
    case (Inl e)
    have "main_loop extract recent nrm kw_list t (item # rest) st
        = main_loop extract recent nrm kw_list (Suc t) rest ?st1"
      unfolding stp Inl by simp
    with Cons.prems(3) have "main_loop extract recent nrm kw_list (Suc t) rest ?st1 = (st', err)"
      by (simp only:)
    then show ?thesis by (rule step) auto
  next
    case (Inr art)
    show ?thesis
    proof (cases "published art = None \<or> published art = Some [] \<or> \<not> recent t (published art)")
      case True
      have "main_loop extract recent nrm kw_list t (item # rest) st
          = main_loop extract recent nrm kw_list (Suc t) rest ?st1"
        unfolding stp Inr using True by (simp only: sum.case if_True)
      with Cons.prems(3) have "main_loop extract recent nrm kw_list (Suc t) rest ?st1 = (st', err)"
        by (simp only:)
      then show ?thesis by (rule step) auto
    next
      case False
      let ?art = "art\<lparr>art_source := Some (case source item of None \<Rightarrow> ''?'' | Some n \<Rightarrow> n)\<rparr>"
      let ?st2 = "st\<lparr>st_events := st_events st @ [Attempted ?u],
                     st_collected := st_collected st @ [?art],
                     st_seen := insert ?u (st_seen st)\<rparr>"
      show ?thesis
      proof (cases "sliceable (art_title art)")
        case True
        have "main_loop extract recent nrm kw_list t (item # rest) st
            = main_loop extract recent nrm kw_list (Suc t) rest ?st2"
          unfolding stp Inr using False True by (simp only: sum.case if_False if_True)
        with Cons.prems(3) have "main_loop extract recent nrm kw_list (Suc t) rest ?st2 = (st', err)"
          by (simp only:)
        then show ?thesis by (rule step) auto
      next
        case ns: False
        have "main_loop extract recent nrm kw_list t (item # rest) st = (?st2, Some TypeError)"
          unfolding stp Inr using False ns by (simp only: sum.case if_False)
        with Cons.prems(3) have "(st', err) = (?st2, Some TypeError)" by (simp only:)
        then have "st' = ?st2" "err = Some TypeError" by simp_all
        then show ?thesis by (intro stop) simp_all
      qed
    qed
  qed
qed


lemma prefilter_stage_inactive:
  "\<not> kw_active kw_list \<Longrightarrow> prefilter_stage nrm kw_list items = items"
  by (auto simp: prefilter_stage_def kw_active_def split: option.splits)

text \<open>
  In a run with no keyword the listing given to the loop is the deduplicated aggregate and
  the seen set starts empty, so the test on the seen set never holds: the loop attempts the
  urls of the listing in order, all of them unless an exception leaves it.
\<close>

lemma no_keyword_run:
  assumes "\<not> kw_active (make_kw_list nrm keyword)"
  shows "load_state = {} \<and>
     distinct (map url (parse_all_listings session so uj SOURCES)) \<and>
     (\<forall>u. SkippedSeen u \<notin> set (st_events (fst (main_collect session so uj SOURCES extract recent nrm keyword)))) \<and>
     prefix (st_events (fst (main_collect session so uj SOURCES extract recent nrm keyword)))
       (map (Attempted \<circ> url) (parse_all_listings session so uj SOURCES)) \<and>
     (snd (main_collect session so uj SOURCES extract recent nrm keyword) = None \<longrightarrow>
        st_events (fst (main_collect session so uj SOURCES extract recent nrm keyword))
          = map (Attempted \<circ> url) (parse_all_listings session so uj SOURCES))"
proof -
  define items where "items = parse_all_listings session so uj SOURCES"
  define init where "init = \<lparr>st_seen = load_state, st_collected = [], st_events = []\<rparr>"
  define kw_list where "kw_list = make_kw_list nrm keyword"
  obtain st' err where r: "main_loop extract recent nrm kw_list 0 items init = (st', err)"
    by (cases "main_loop extract recent nrm kw_list 0 items init")
  from assms have nk: "\<not> kw_active kw_list" by (simp add: kw_list_def)
  have mc: "main_collect session so uj SOURCES extract recent nrm keyword = (st', err)"
    using r nk
    by (simp add: main_collect_def Let_def prefilter_stage_inactive
        items_def [symmetric] init_def [symmetric] kw_list_def [symmetric])
  have "items = first_by_url (sources_loop session so uj 0 SOURCES [])"
    unfolding items_def parse_all_listings_def global_dedup_exact by simp
  then have d: "distinct (map url items)"
    by (simp add: first_by_url_distinct)
  have e: "\<forall>it\<in>set items. url it \<notin> st_seen init" by (simp add: init_def load_state_def)
  from main_loop_no_skip [OF nk d e r] obtain k where k: "k \<le> length items"
    "st_events st' = st_events init @ map (Attempted \<circ> url) (take k items)"
    "err = None \<longrightarrow> k = length items" by blast
  then have ev: "st_events st' = map (Attempted \<circ> url) (take k items)" by (simp add: init_def)
  have p: "prefix (st_events st') (map (Attempted \<circ> url) items)"
    unfolding ev by (simp add: take_is_prefix map_mono_prefix)
  have ns: "SkippedSeen u \<notin> set (st_events st')" for u
    unfolding ev by auto
  from k(3) ev have full: "err = None \<longrightarrow> st_events st' = map (Attempted \<circ> url) items" by simp
  from d p ns full show ?thesis
    unfolding mc fst_conv snd_conv items_def [symmetric] by (simp add: load_state_def)
qed

text \<open>
  Claim C9. A run with no keyword over a listing of three distinct urls, where the page of
  the first has the number 5 as the headline of its metadata and a recent date. The seen
  set starts empty and the first url is not skipped: its article is extracted, collected
  and its url added to the seen set; then the closing log line of the iteration slices the
  title and raises \<^verbatim>\<open>TypeError\<close>, outside the \<^verbatim>\<open>try\<close> of the loop. The run ends there
  and the two other urls of the listing are never attempted. Over the same listing with
  headlines that are strings, every url is attempted, also after an extraction that fails.
\<close>

theorem numeric_headline_stops_run:
  "load_state = {} \<and>
   make_kw_list demo_nrm KwNone = None \<and>
   parse_all_listings demo_listing_session demo_set_order demo_urljoin demo_sources
     = [mk_item ''http://x/a.html'' [] ''t1'' \<lparr>source := Some ''S1''\<rparr>,
        mk_item ''http://x/c.html'' [] [] \<lparr>source := Some ''S1''\<rparr>,
        mk_item ''http://x/b.html'' [] ''t3'' \<lparr>source := Some ''S2''\<rparr>] \<and>
   demo_numeric_extract 0 ''http://x/a.html''
     = Inr \<lparr>art_url = ''http://x/a.html'', art_title = JNum 5, author = JStr [],
             published = Some ''2024-03-05T10:00:00+01:00'', content = JStr ''Body text'',
             art_source = None\<rparr> \<and>
   main_collect demo_listing_session demo_set_order demo_urljoin demo_sources
       demo_numeric_extract demo_recent demo_nrm KwNone
     = (\<lparr>st_seen = {''http://x/a.html''},
         st_collected =
           [\<lparr>art_url = ''http://x/a.html'', art_title = JNum 5, author = JStr [],
             published = Some ''2024-03-05T10:00:00+01:00'', content = JStr ''Body text'',
             art_source = Some ''S1''\<rparr>],
         st_events = [Attempted ''http://x/a.html'']\<rparr>,
        Some TypeError) \<and>
   main_collect demo_listing_session demo_set_order demo_urljoin demo_sources
       demo_extract demo_recent demo_nrm KwNone
     = (\<lparr>st_seen = {''http://x/b.html'', ''http://x/a.html''},
         st_collected =
           [\<lparr>art_url = ''http://x/a.html'', art_title = JStr ''Gas news'', author = JStr ''Jane Doe'',
             published = Some ''2024-03-05T10:00:00+01:00'', content = JStr ''Body text'',
             art_source = Some ''S1''\<rparr>,
            \<lparr>art_url = ''http://x/b.html'', art_title = JStr ''Gas news'', author = JStr ''Jane Doe'',
             published = Some ''2024-03-05T10:00:00+01:00'', content = JStr ''Body text'',
             art_source = Some ''S2''\<rparr>],
         st_events = [Attempted ''http://x/a.html'', Attempted ''http://x/c.html'',
                      Attempted ''http://x/b.html'']\<rparr>,
        None)"
proof -
  have a: "load_state = {}"
    by (simp add: load_state_def)
  have b: "make_kw_list demo_nrm KwNone = None"
    by (simp add: make_kw_list_def)
  have c: "parse_all_listings demo_listing_session demo_set_order demo_urljoin demo_sources
     = [mk_item ''http://x/a.html'' [] ''t1'' \<lparr>source := Some ''S1''\<rparr>,
        mk_item ''http://x/c.html'' [] [] \<lparr>source := Some ''S1''\<rparr>,
        mk_item ''http://x/b.html'' [] ''t3'' \<lparr>source := Some ''S2''\<rparr>]"
    by code_simp
  have d: "demo_numeric_extract 0 ''http://x/a.html''
     = Inr \<lparr>art_url = ''http://x/a.html'', art_title = JNum 5, author = JStr [],
             published = Some ''2024-03-05T10:00:00+01:00'', content = JStr ''Body text'',
             art_source = None\<rparr>"
    by code_simp
  have e: "main_collect demo_listing_session demo_set_order demo_urljoin demo_sources
       demo_numeric_extract demo_recent demo_nrm KwNone
     = (\<lparr>st_seen = {''http://x/a.html''},
         st_collected =
           [\<lparr>art_url = ''http://x/a.html'', art_title = JNum 5, author = JStr [],
             published = Some ''2024-03-05T10:00:00+01:00'', content = JStr ''Body text'',
             art_source = Some ''S1''\<rparr>],
         st_events = [Attempted ''http://x/a.html'']\<rparr>,
        Some TypeError)"
    by code_simp
  have f: "main_collect demo_listing_session demo_set_order demo_urljoin demo_sources
       demo_extract demo_recent demo_nrm KwNone
     = (\<lparr>st_seen = {''http://x/b.html'', ''http://x/a.html''},
         st_collected =
           [\<lparr>art_url = ''http://x/a.html'', art_title = JStr ''Gas news'', author = JStr ''Jane Doe'',
             published = Some ''2024-03-05T10:00:00+01:00'', content = JStr ''Body text'',
             art_source = Some ''S1''\<rparr>,
            \<lparr>art_url = ''http://x/b.html'', art_title = JStr ''Gas news'', author = JStr ''Jane Doe'',
             published = Some ''2024-03-05T10:00:00+01:00'', content = JStr ''Body text'',
             art_source = Some ''S2''\<rparr>],
         st_events = [Attempted ''http://x/a.html'', Attempted ''http://x/c.html'',
                      Attempted ''http://x/b.html'']\<rparr>,
        None)"
    by code_simp
  from a b c d e f show ?thesis by (simp only: simp_thms)
qed

end
